theory Spec2Isabelle
  imports Complex_Main "HOL-Library.AList"
begin

section \<open>The enhanced learning core of the XMRT assistant\<close>

text \<open>
  A shallow embedding of \<^verbatim>\<open>enhanced_learning_core.py\<close>: the adaptive gradient
  optimizer, the Bayesian optimizer, the tabular Q-learning agent and the learning
  engine that drives them.

  Conventions of the embedding.
  \<^item> A Python \<^verbatim>\<open>float\<close> is a HOL \<^typ>\<open>real\<close>. There is no NaN and no infinite
    float: the one infinite float of the source, the initial \<^verbatim>\<open>float('-inf')\<close> of the
    Bayesian best score, has a constructor of its own. A Python \<^verbatim>\<open>int\<close> is a HOL
    \<^typ>\<open>int\<close>; an operation that takes an int to a float raises \<^verbatim>\<open>OverflowError\<close>
    when the int is beyond the range of the floats.
  \<^item> The rounding of floating-point arithmetic is a parameter of the model, the function
    \<open>round_float\<close> that takes the exact result of an operation to the float that
    the machine returns. It is written out in \<^verbatim>\<open>update_q_value\<close>, where the value of
    \<^verbatim>\<open>epsilon\<close> after several updates depends on it; the other methods are modelled
    with exact arithmetic.
  \<^item> A mutable object is a record; a method takes the record and returns the updated
    one. A method that may raise returns its error together with the state as
    it stands when the exception leaves the method.
  \<^item> \<^verbatim>\<open>collections.deque(maxlen=n)\<close> is a record of the capacity and the items,
    oldest first.
\<close>

subsection \<open>Bounded sequences\<close>

text \<open>
  \<^verbatim>\<open>deque(maxlen=n)\<close> starts empty. \<^verbatim>\<open>append\<close> adds on the right and, when the
  deque is then longer than \<^verbatim>\<open>maxlen\<close>, drops the leftmost item.
\<close>

record 'a deque =
  maxlen :: nat
  items :: "'a list"

definition deque_new :: "nat \<Rightarrow> 'a deque" where
  "deque_new n = \<lparr>maxlen = n, items = []\<rparr>"

definition deque_append :: "'a deque \<Rightarrow> 'a \<Rightarrow> 'a deque" where
  "deque_append d x =
     (let ys = items d @ [x]
      in d\<lparr>items := (if maxlen d < length ys then tl ys else ys)\<rparr>)"

text \<open>Appending the elements of a list one after the other, leftmost first.\<close>

fun deque_append_all :: "'a deque \<Rightarrow> 'a list \<Rightarrow> 'a deque" where
  "deque_append_all d [] = d"
| "deque_append_all d (x # xs) = deque_append_all (deque_append d x) xs"

subsection \<open>Dynamically typed values\<close>

text \<open>
  The fields of an experience are annotated \<^verbatim>\<open>Any\<close>: what arrives is whatever the
  caller's request holds. The values modelled are \<^verbatim>\<open>None\<close>, booleans, integers
  (\<open>PInt\<close>), floats (\<open>PNum\<close>), strings and dictionaries with string keys. A
  dictionary is the list of its items in insertion order; its keys are pairwise
  distinct.
\<close>

datatype pyval =
    PNone
  | PBool bool
  | PInt int
  | PNum real
  | PStr string
  | PDict "(string \<times> pyval) list"

type_synonym pydict = "(string \<times> pyval) list"

datatype py_error =
    AttributeError
  | TypeError
  | KeyError
  | IndexError
  | ValueError
  | ZeroDivisionError
  | OverflowError

text \<open>Sequencing of steps that may raise: the first exception ends the sequence.\<close>

definition and_then :: "py_error + 'a \<Rightarrow> ('a \<Rightarrow> py_error + 'b) \<Rightarrow> py_error + 'b" where
  "and_then r f = (case r of Inl e \<Rightarrow> Inl e | Inr x \<Rightarrow> f x)"

text \<open>\<^verbatim>\<open>d.get(k, default)\<close> on a dictionary.\<close>

definition dict_get :: "pydict \<Rightarrow> string \<Rightarrow> pyval \<Rightarrow> pyval" where
  "dict_get d k dflt = (case map_of d k of None \<Rightarrow> dflt | Some v \<Rightarrow> v)"

text \<open>
  \<^verbatim>\<open>x.get(k, default)\<close> on any value: only a dictionary has the method, every other
  value raises \<^verbatim>\<open>AttributeError\<close>.
\<close>

fun py_get :: "pyval \<Rightarrow> string \<Rightarrow> pyval \<Rightarrow> py_error + pyval" where
  "py_get (PDict d) k dflt = Inr (dict_get d k dflt)"
| "py_get _ k dflt = Inl AttributeError"

text \<open>\<^verbatim>\<open>x.items()\<close> and \<^verbatim>\<open>x.copy()\<close>: again only a dictionary has them.\<close>

fun py_items :: "pyval \<Rightarrow> py_error + pydict" where
  "py_items (PDict d) = Inr d"
| "py_items _ = Inl AttributeError"

fun py_copy :: "pyval \<Rightarrow> py_error + pydict" where
  "py_copy (PDict d) = Inr d"
| "py_copy _ = Inl AttributeError"

text \<open>The numeric value of a number; \<^verbatim>\<open>bool\<close> is a subclass of \<^verbatim>\<open>int\<close>.\<close>

fun num_of :: "pyval \<Rightarrow> real option" where
  "num_of (PNum r) = Some r"
| "num_of (PInt i) = Some (of_int i)"
| "num_of (PBool b) = Some (if b then 1 else 0)"
| "num_of _ = None"

text \<open>The value of an integer, for the arithmetic that stays within \<^verbatim>\<open>int\<close>.\<close>

fun int_of :: "pyval \<Rightarrow> int option" where
  "int_of (PInt i) = Some i"
| "int_of (PBool b) = Some (if b then 1 else 0)"
| "int_of _ = None"

text \<open>
  An arithmetic operator with a float operand takes its other operand to a float first.
  A float is taken as it is. An int is rounded to the nearest float, ties to even
  (\<open>rnd\<close> is the rounding: the identity where the arithmetic is modelled as exact);
  from \<open>2^1024 - 2^970\<close> on, the midpoint between the largest float and \<open>2^1024\<close>, this
  raises \<^verbatim>\<open>OverflowError\<close> (int too large to convert to float). Every value that is
  not a number raises \<^verbatim>\<open>TypeError\<close>.
\<close>

definition float_overflow :: int where
  "float_overflow = 2 ^ 1024 - 2 ^ 970"

fun py_float :: "(real \<Rightarrow> real) \<Rightarrow> pyval \<Rightarrow> py_error + real" where
  "py_float rnd (PNum r) = Inr r"
| "py_float rnd (PInt i) =
     (if float_overflow \<le> \<bar>i\<bar> then Inl OverflowError else Inr (rnd (of_int i)))"
| "py_float rnd (PBool b) = Inr (if b then 1 else 0)"
| "py_float rnd _ = Inl TypeError"

text \<open>Strings compare by code point, lexicographically.\<close>

fun str_gt :: "string \<Rightarrow> string \<Rightarrow> bool" where
  "str_gt [] ys = False"
| "str_gt (x # xs) [] = True"
| "str_gt (x # xs) (y # ys) =
     (if x = y then str_gt xs ys else (of_char y :: nat) < of_char x)"

text \<open>
  \<^verbatim>\<open>a > b\<close>: two numbers compare by value, two strings lexicographically; every other
  pair of operands raises \<^verbatim>\<open>TypeError\<close>.
\<close>

definition py_gt :: "pyval \<Rightarrow> pyval \<Rightarrow> py_error + bool" where
  "py_gt a b =
     (case (num_of a, num_of b) of
        (Some x, Some y) \<Rightarrow> Inr (y < x)
      | _ \<Rightarrow> (case (a, b) of
                (PStr s, PStr t) \<Rightarrow> Inr (str_gt s t)
              | _ \<Rightarrow> Inl TypeError))"

text \<open>
  \<^verbatim>\<open>a - b\<close> on any two values. Two integers are subtracted as integers, which cannot
  overflow; two numbers of which one is a float are subtracted as floats; every other
  pair of operands raises \<^verbatim>\<open>TypeError\<close>.
\<close>

definition py_sub :: "pyval \<Rightarrow> pyval \<Rightarrow> py_error + real" where
  "py_sub a b =
     (case (int_of a, int_of b) of
        (Some i, Some j) \<Rightarrow> Inr (of_int (i - j))
      | _ \<Rightarrow>
          (case (num_of a, num_of b) of
             (Some _, Some _) \<Rightarrow>
               and_then (py_float (\<lambda>x. x) a) (\<lambda>x.
               and_then (py_float (\<lambda>x. x) b) (\<lambda>y. Inr (x - y)))
           | _ \<Rightarrow> Inl TypeError))"

text \<open>\<^verbatim>\<open>a + y\<close> and \<^verbatim>\<open>x * b\<close> where \<open>y\<close> and \<open>x\<close> are floats.\<close>

definition py_add_float :: "pyval \<Rightarrow> real \<Rightarrow> py_error + real" where
  "py_add_float a y = and_then (py_float (\<lambda>x. x) a) (\<lambda>x. Inr (x + y))"

definition py_mul_float :: "real \<Rightarrow> pyval \<Rightarrow> py_error + real" where
  "py_mul_float x b = and_then (py_float (\<lambda>x. x) b) (\<lambda>y. Inr (x * y))"

text \<open>Truth value testing, as \<^verbatim>\<open>if done:\<close> does it.\<close>

fun truthy :: "pyval \<Rightarrow> bool" where
  "truthy PNone = False"
| "truthy (PBool b) = b"
| "truthy (PInt i) = (i \<noteq> 0)"
| "truthy (PNum r) = (r \<noteq> 0)"
| "truthy (PStr s) = (s \<noteq> [])"
| "truthy (PDict d) = (d \<noteq> [])"

text \<open>
  What the source takes from the interpreter and the clock is a parameter of the model:
  the built-in \<^verbatim>\<open>hash\<close> (salted per process for strings), the text that
  \<^verbatim>\<open>str(sorted(d.items()))\<close> gives for a dictionary, \<^verbatim>\<open>datetime.now().isoformat()\<close>,
  the text \<^verbatim>\<open>str(e)\<close> of an exception, and the rounding of the machine's
  floating-point unit: \<open>round_float env x\<close> is the float returned for an operation
  whose exact result is \<open>x\<close>.
\<close>

record py_env =
  builtin_hash :: "pyval \<Rightarrow> int"
  sorted_items_str :: "pydict \<Rightarrow> string"
  now_isoformat :: string
  exception_str :: "py_error \<Rightarrow> string"
  round_float :: "real \<Rightarrow> real"

text \<open>\<^verbatim>\<open>hash(x)\<close>: a dictionary is unhashable.\<close>

fun py_hash :: "py_env \<Rightarrow> pyval \<Rightarrow> py_error + int" where
  "py_hash env (PDict d) = Inl TypeError"
| "py_hash env v = Inr (builtin_hash env v)"

text \<open>\<^verbatim>\<open>a % n\<close> on integers; the result has the sign of \<^verbatim>\<open>n\<close>, as \<open>mod\<close> on \<^typ>\<open>int\<close>.\<close>

definition py_mod :: "int \<Rightarrow> int \<Rightarrow> py_error + int" where
  "py_mod a n = (if n = 0 then Inl ZeroDivisionError else Inr (a mod n))"

subsection \<open>Optimization algorithms: the adaptive gradient descent\<close>

text \<open>
  What \<^verbatim>\<open>update\<close> returns: the dictionary of the gradient optimizer, the dictionary
  of the Bayesian optimizer, or the empty dictionary the engine uses when no optimizer
  is selected.
\<close>

datatype score = NegInf | Fin real

datatype update_result =
    GradientResult real "(string \<times> real) list" real
  | BayesianResult score "pydict option" nat
  | EmptyResult

record gradient_descent =
  gd_learning_rate :: real
  gd_base_learning_rate :: real
  gd_momentum :: real
  gd_adaptive_factor :: real
  gd_decay_factor :: real
  gd_velocity :: "(string \<times> real) list"
  gd_performance_history :: "pyval deque"

definition AdaptiveGradientDescent ::
    "real \<Rightarrow> real \<Rightarrow> real \<Rightarrow> real \<Rightarrow> gradient_descent" where
  "AdaptiveGradientDescent learning_rate momentum adaptive_factor decay_factor =
     \<lparr>gd_learning_rate = learning_rate,
      gd_base_learning_rate = learning_rate,
      gd_momentum = momentum,
      gd_adaptive_factor = adaptive_factor,
      gd_decay_factor = decay_factor,
      gd_velocity = [],
      gd_performance_history = deque_new 50\<rparr>"

text \<open>
  The loop over \<^verbatim>\<open>gradients.items()\<close>. A gradient that is not a number raises
  \<^verbatim>\<open>TypeError\<close> at the product with the learning rate, and an integer beyond the
  floats \<^verbatim>\<open>OverflowError\<close>; the entry 0 that the loop has just created for a new
  parameter name, and the velocities of the names before it, stay.
\<close>

fun update_velocities ::
    "gradient_descent \<Rightarrow> pydict \<Rightarrow> (py_error + unit) \<times> gradient_descent" where
  "update_velocities g [] = (Inr (), g)"
| "update_velocities g ((param_name, gradient) # rest) =
     (let g0 = (case map_of (gd_velocity g) param_name of
                  None \<Rightarrow> g\<lparr>gd_velocity := AList.update param_name 0 (gd_velocity g)\<rparr>
                | Some _ \<Rightarrow> g);
          old = (case map_of (gd_velocity g0) param_name of None \<Rightarrow> 0 | Some v \<Rightarrow> v)
      in case py_mul_float (gd_learning_rate g0) gradient of
           Inl e \<Rightarrow> (Inl e, g0)
         | Inr step \<Rightarrow>
             update_velocities
               (g0\<lparr>gd_velocity :=
                     AList.update param_name (gd_momentum g0 * old + step) (gd_velocity g0)\<rparr>)
               rest)"

definition AdaptiveGradientDescent_update ::
    "gradient_descent \<Rightarrow> pydict \<Rightarrow> pydict \<Rightarrow> (py_error + update_result) \<times> gradient_descent"
  where
  "AdaptiveGradientDescent_update g current_state feedback =
     (let performance = dict_get feedback ''performance'' (PNum 0);
          gradients = dict_get feedback ''gradients'' (PDict []);
          g1 = g\<lparr>gd_performance_history := deque_append (gd_performance_history g) performance\<rparr>;
          h = items (gd_performance_history g1)
      in case (if 2 \<le> length h
               then (case py_gt (h ! (length h - 1)) (h ! (length h - 2)) of
                       Inl e \<Rightarrow> Inl e
                     | Inr improved \<Rightarrow>
                         Inr (g1\<lparr>gd_learning_rate :=
                                    (if improved
                                     then min (gd_learning_rate g1 * gd_adaptive_factor g1)
                                              (gd_base_learning_rate g1 * 2)
                                     else gd_learning_rate g1 * gd_decay_factor g1)\<rparr>))
               else Inr g1) of
           Inl e \<Rightarrow> (Inl e, g1)
         | Inr g2 \<Rightarrow>
             (case py_items gradients of
                Inl e \<Rightarrow> (Inl e, g2)
              | Inr gs \<Rightarrow>
                  (case update_velocities g2 gs of
                     (Inl e, g3) \<Rightarrow> (Inl e, g3)
                   | (Inr _, g3) \<Rightarrow>
                       (Inr (GradientResult (gd_learning_rate g3) (gd_velocity g3)
                               (gd_momentum g3)),
                        g3))))"

text \<open>
  A sequence of \<^verbatim>\<open>update\<close> calls on one optimizer, each with its
  \<^verbatim>\<open>(current_state, feedback)\<close>. A call that raises leaves the optimizer as it stands
  at the raise, and the next call goes on from there.
\<close>

fun gradient_updates :: "gradient_descent \<Rightarrow> (pydict \<times> pydict) list \<Rightarrow> gradient_descent" where
  "gradient_updates g [] = g"
| "gradient_updates g ((current_state, feedback) # calls) =
     gradient_updates (snd (AdaptiveGradientDescent_update g current_state feedback)) calls"

subsection \<open>Optimization algorithms: the Bayesian optimizer\<close>

text \<open>The order of scores: \<^verbatim>\<open>float('-inf')\<close> is below every number.\<close>

fun score_less :: "score \<Rightarrow> score \<Rightarrow> bool" where
  "score_less a NegInf = False"
| "score_less NegInf (Fin y) = True"
| "score_less (Fin x) (Fin y) = (x < y)"

definition score_le :: "score \<Rightarrow> score \<Rightarrow> bool" where
  "score_le a b = (a = b \<or> score_less a b)"

record bayesian_optimizer =
  bo_parameter_space :: "(string \<times> real \<times> real) list"
  bo_observations :: "pyval list"
  bo_parameter_history :: "pydict list"
  bo_best_params :: "pydict option"
  bo_best_score :: score

definition BayesianOptimizer :: "(string \<times> real \<times> real) list \<Rightarrow> bayesian_optimizer" where
  "BayesianOptimizer parameter_space =
     \<lparr>bo_parameter_space = parameter_space,
      bo_observations = [],
      bo_parameter_history = [],
      bo_best_params = None,
      bo_best_score = NegInf\<rparr>"

text \<open>
  In \<^verbatim>\<open>update\<close> the observation and the copy of the parameters are appended before
  \<^verbatim>\<open>performance > self.best_score\<close> is evaluated. The right operand of that
  comparison is a float, so a performance that is not a number raises \<^verbatim>\<open>TypeError\<close>
  there.
\<close>

definition BayesianOptimizer_update ::
    "bayesian_optimizer \<Rightarrow> pydict \<Rightarrow> pydict \<Rightarrow> (py_error + update_result) \<times> bayesian_optimizer"
  where
  "BayesianOptimizer_update b current_state feedback =
     (let parameters = dict_get current_state ''parameters'' (PDict []);
          performance = dict_get feedback ''performance'' (PNum 0);
          b1 = b\<lparr>bo_observations := bo_observations b @ [performance]\<rparr>
      in case py_copy parameters of
           Inl e \<Rightarrow> (Inl e, b1)
         | Inr params \<Rightarrow>
             (let b2 = b1\<lparr>bo_parameter_history := bo_parameter_history b1 @ [params]\<rparr>
              in case num_of performance of
                   None \<Rightarrow> (Inl TypeError, b2)
                 | Some x \<Rightarrow>
                     (let b3 = (if score_less (bo_best_score b2) (Fin x)
                                then b2\<lparr>bo_best_score := Fin x, bo_best_params := Some params\<rparr>
                                else b2)
                      in (Inr (BayesianResult (bo_best_score b3) (bo_best_params b3)
                                 (length (bo_observations b3))),
                          b3))))"

fun bayesian_updates ::
    "bayesian_optimizer \<Rightarrow> (pydict \<times> pydict) list \<Rightarrow> bayesian_optimizer" where
  "bayesian_updates b [] = b"
| "bayesian_updates b ((current_state, feedback) # calls) =
     bayesian_updates (snd (BayesianOptimizer_update b current_state feedback)) calls"

text \<open>
  The random numbers are a parameter: \<open>u i\<close> is the \<open>i\<close>-th number that the generator
  draws uniformly from \<open>[0, 1)\<close>, \<open>z i\<close> its \<open>i\<close>-th standard normal number.
  \<^verbatim>\<open>np.random.uniform(low, high)\<close> is \<open>low + (high - low) * u\<close>;
  \<^verbatim>\<open>np.random.normal(loc, scale)\<close> is \<open>loc + scale * z\<close> and raises \<^verbatim>\<open>ValueError\<close>
  for a negative scale; \<^verbatim>\<open>np.clip(x, lo, hi)\<close> is \<open>minimum(maximum(x, lo), hi)\<close>.
\<close>

definition np_uniform :: "real \<Rightarrow> real \<Rightarrow> real \<Rightarrow> real" where
  "np_uniform low high u = low + (high - low) * u"

definition np_normal :: "real \<Rightarrow> real \<Rightarrow> real \<Rightarrow> py_error + real" where
  "np_normal loc scale z = (if scale < 0 then Inl ValueError else Inr (loc + scale * z))"

definition np_clip :: "real \<Rightarrow> real \<Rightarrow> real \<Rightarrow> real" where
  "np_clip x lo hi = min (max x lo) hi"

fun random_sample_loop ::
    "(nat \<Rightarrow> real) \<Rightarrow> nat \<Rightarrow> (string \<times> real \<times> real) list \<Rightarrow> pydict \<Rightarrow> pydict" where
  "random_sample_loop u i [] params = params"
| "random_sample_loop u i ((param_name, (min_val, max_val)) # rest) params =
     random_sample_loop u (Suc i) rest
       (AList.update param_name (PNum (np_uniform min_val max_val (u i))) params)"

definition random_sample :: "(nat \<Rightarrow> real) \<Rightarrow> bayesian_optimizer \<Rightarrow> pydict" where
  "random_sample u b = random_sample_loop u 0 (bo_parameter_space b) []"

text \<open>
  The loop of \<^verbatim>\<open>_ucb_acquisition\<close> over the keys of its copy of the best parameters.
  A key that the parameter space does not declare raises \<^verbatim>\<open>KeyError\<close>; at the
  addition of the noise a value that is not a number raises \<^verbatim>\<open>TypeError\<close> and an
  integer beyond the floats \<^verbatim>\<open>OverflowError\<close>. A best parameter that is NaN, which
  the source returns as NaN, is not a value of this embedding.
\<close>

fun ucb_loop ::
    "(nat \<Rightarrow> real) \<Rightarrow> nat \<Rightarrow> (string \<times> real \<times> real) list \<Rightarrow> string list \<Rightarrow> pydict
      \<Rightarrow> py_error + pydict" where
  "ucb_loop z i space [] best_params = Inr best_params"
| "ucb_loop z i space (param_name # names) best_params =
     (case map_of space param_name of
        None \<Rightarrow> Inl KeyError
      | Some (min_val, max_val) \<Rightarrow>
          (let noise_scale = (max_val - min_val) * 0.1
           in case map_of best_params param_name of
                None \<Rightarrow> Inl KeyError
              | Some v \<Rightarrow>
                  and_then (np_normal 0 noise_scale (z i)) (\<lambda>noise.
                  and_then (py_add_float v noise) (\<lambda>x.
                    ucb_loop z (Suc i) space names
                      (AList.update param_name (PNum (np_clip x min_val max_val))
                         best_params)))))"

definition ucb_acquisition ::
    "(nat \<Rightarrow> real) \<Rightarrow> (nat \<Rightarrow> real) \<Rightarrow> bayesian_optimizer \<Rightarrow> py_error + pydict" where
  "ucb_acquisition u z b =
     (let best_params = (case bo_best_params b of
                           None \<Rightarrow> random_sample u b
                         | Some bp \<Rightarrow> if bp \<noteq> [] then bp else random_sample u b)
      in ucb_loop z 0 (bo_parameter_space b) (map fst best_params) best_params)"

definition BayesianOptimizer_get_next_parameters ::
    "(nat \<Rightarrow> real) \<Rightarrow> (nat \<Rightarrow> real) \<Rightarrow> bayesian_optimizer \<Rightarrow> py_error + pydict" where
  "BayesianOptimizer_get_next_parameters u z b =
     (if length (bo_observations b) < 3 then Inr (random_sample u b)
      else ucb_acquisition u z b)"

text \<open>
  A proposal lies within the bounds when each of its values is a number between the
  minimum and the maximum that the parameter space declares for its name.
\<close>

definition within_bounds :: "(string \<times> real \<times> real) list \<Rightarrow> pydict \<Rightarrow> bool" where
  "within_bounds space params =
     list_all (\<lambda>(param_name, v).
         case (map_of space param_name, v) of
           (Some (min_val, max_val), PNum x) \<Rightarrow> min_val \<le> x \<and> x \<le> max_val
         | _ \<Rightarrow> False)
       params"

subsection \<open>The Q-learning agent\<close>

record rl_agent =
  rl_state_space_size :: nat
  rl_action_space_size :: nat
  rl_learning_rate :: real
  rl_discount_factor :: real
  rl_epsilon :: real
  rl_epsilon_decay :: real
  rl_q_table :: "real list list"
  rl_experience_buffer :: "pyval deque"

definition ReinforcementLearningAgent ::
    "nat \<Rightarrow> nat \<Rightarrow> real \<Rightarrow> real \<Rightarrow> real \<Rightarrow> real \<Rightarrow> rl_agent" where
  "ReinforcementLearningAgent state_space_size action_space_size learning_rate
       discount_factor epsilon epsilon_decay =
     \<lparr>rl_state_space_size = state_space_size,
      rl_action_space_size = action_space_size,
      rl_learning_rate = learning_rate,
      rl_discount_factor = discount_factor,
      rl_epsilon = epsilon,
      rl_epsilon_decay = epsilon_decay,
      rl_q_table = replicate state_space_size (replicate action_space_size 0),
      rl_experience_buffer = deque_new 10000\<rparr>"

text \<open>
  Indexing a numpy axis of length \<open>n\<close>: an index from \<open>-n\<close> to \<open>-1\<close> counts from the
  end, an index outside \<open>-n .. n-1\<close> raises \<^verbatim>\<open>IndexError\<close>.
\<close>

definition np_index :: "nat \<Rightarrow> int \<Rightarrow> py_error + nat" where
  "np_index n i =
     (if 0 \<le> i \<and> i < int n then Inr (nat i)
      else if - int n \<le> i \<and> i < 0 then Inr (nat (int n + i))
      else Inl IndexError)"

text \<open>\<^verbatim>\<open>np.max\<close> raises \<^verbatim>\<open>ValueError\<close> on an array without elements.\<close>

fun np_max :: "real list \<Rightarrow> py_error + real" where
  "np_max [] = Inl ValueError"
| "np_max (x # xs) = Inr (fold max xs x)"

text \<open>\<^verbatim>\<open>np.var\<close>: the mean of the squared deviations from the mean.\<close>

definition np_mean :: "real list \<Rightarrow> real" where
  "np_mean xs = sum_list xs / real (length xs)"

definition np_var :: "real list \<Rightarrow> real" where
  "np_var xs = np_mean (map (\<lambda>x. (x - np_mean xs)\<^sup>2) xs)"

definition get_state_hash :: "py_env \<Rightarrow> rl_agent \<Rightarrow> pyval \<Rightarrow> py_error + int" where
  "get_state_hash env a state =
     and_then (py_items state) (\<lambda>its.
       py_mod (builtin_hash env (PStr (sorted_items_str env its)))
              (int (rl_state_space_size a)))"

text \<open>
  \<^verbatim>\<open>update_q_value\<close> assigns to the table and to \<^verbatim>\<open>epsilon\<close> in its last two
  statements only, after everything that can raise: a call that raises leaves the agent
  as it was.

  Every arithmetic operation of the method is on floats and returns the rounded result;
  the literal \<^verbatim>\<open>0.01\<close> is the float nearest to 1/100. The reward is taken to a float
  where the source first operates on it with a float: at the addition of the discounted
  maximum when \<^verbatim>\<open>done\<close> is false, and at the subtraction of \<^verbatim>\<open>current_q\<close>, after
  the two indices have been checked, when \<^verbatim>\<open>done\<close> is true and the target is the
  reward itself (\<open>None\<close> below).
\<close>

definition update_q_value ::
    "py_env \<Rightarrow> rl_agent \<Rightarrow> pyval \<Rightarrow> int \<Rightarrow> pyval \<Rightarrow> pyval \<Rightarrow> pyval \<Rightarrow> py_error + rl_agent"
  where
  "update_q_value env a state action reward next_state done =
     and_then (get_state_hash env a state) (\<lambda>state_hash.
     and_then (get_state_hash env a next_state) (\<lambda>next_state_hash.
     and_then (if truthy done then Inr None
               else and_then (np_index (length (rl_q_table a)) next_state_hash) (\<lambda>n.
                    and_then (np_max (rl_q_table a ! n)) (\<lambda>m.
                    and_then (py_float (round_float env) reward) (\<lambda>r.
                      Inr (Some (round_float env
                                   (r + round_float env (rl_discount_factor a * m)))))))) (\<lambda>target.
     and_then (np_index (length (rl_q_table a)) state_hash) (\<lambda>s.
     and_then (np_index (length (rl_q_table a ! s)) action) (\<lambda>j.
     and_then (case target of
                 None \<Rightarrow> py_float (round_float env) reward
               | Some t \<Rightarrow> Inr t) (\<lambda>t.
       Inr (a\<lparr>rl_q_table :=
                 (rl_q_table a)
                   [s := (rl_q_table a ! s)
                           [j := round_float env
                                   (rl_q_table a ! s ! j +
                                    round_float env
                                      (rl_learning_rate a *
                                       round_float env (t - rl_q_table a ! s ! j)))]],
               rl_epsilon := max (round_float env 0.01)
                                 (round_float env (rl_epsilon a * rl_epsilon_decay a))\<rparr>)))))))"

definition get_policy_strength :: "rl_agent \<Rightarrow> py_error + real" where
  "get_policy_strength a =
     (let q_variance = np_var (concat (rl_q_table a))
      in and_then (np_max (concat (rl_q_table a))) (\<lambda>max_q.
           if max_q = 0 then Inr 0 else Inr (min 1 (q_variance / max_q))))"

text \<open>
  A sequence of \<^verbatim>\<open>update_q_value\<close> calls, each with its
  \<^verbatim>\<open>(state, action, reward, next_state, done)\<close>; the first call that raises ends it.
\<close>

fun q_updates ::
    "py_env \<Rightarrow> rl_agent \<Rightarrow> (pyval \<times> int \<times> pyval \<times> pyval \<times> pyval) list
      \<Rightarrow> py_error + rl_agent" where
  "q_updates env a [] = Inr a"
| "q_updates env a ((state, action, reward, next_state, done) # calls) =
     and_then (update_q_value env a state action reward next_state done) (\<lambda>a'.
       q_updates env a' calls)"

subsection \<open>The learning engine\<close>

record experience =
  exp_timestamp :: pyval
  exp_context :: pyval
  exp_action_taken :: pyval
  exp_outcome :: pyval
  exp_reward :: pyval
  exp_confidence :: pyval
  exp_metadata :: pydict

record learning_core =
  config :: "(string \<times> real) list"
  gradient_optimizer :: gradient_descent
  bayesian_optimizer :: bayesian_optimizer
  rl_agent :: rl_agent
  learning_experiences :: "experience deque"
  performance_metrics :: "string \<rightharpoonup> pyval list"
  current_optimizer :: string
  learning_iteration :: int
  last_performance :: pyval

text \<open>
  The constructor. The configuration is read for \<^verbatim>\<open>learning_rate\<close> only, which is
  taken to be a float, as the signature of \<^verbatim>\<open>AdaptiveGradientDescent\<close> declares it.
\<close>

definition EnhancedAutonomousLearningCore :: "(string \<times> real) list option \<Rightarrow> learning_core" where
  "EnhancedAutonomousLearningCore cfg =
     (let conf = (case cfg of None \<Rightarrow> [] | Some c \<Rightarrow> c)
      in \<lparr>config = conf,
          gradient_optimizer =
            AdaptiveGradientDescent
              (case map_of conf ''learning_rate'' of None \<Rightarrow> 0.01 | Some r \<Rightarrow> r)
              0.9 1.1 0.95,
          bayesian_optimizer =
            BayesianOptimizer
              [(''learning_rate'', (0.001, 0.1)), (''confidence_threshold'', (0.5, 0.95))],
          rl_agent = ReinforcementLearningAgent 1000 10 0.1 0.95 0.1 0.995,
          learning_experiences = deque_new 10000,
          performance_metrics = Map.empty,
          current_optimizer = ''gradient'',
          learning_iteration = 0,
          last_performance = PNum 0\<rparr>)"

text \<open>
  The construction of the \<^verbatim>\<open>LearningExperience\<close>: six \<^verbatim>\<open>experience_data.get\<close>
  calls, which raise when the experience data is not a dictionary.
\<close>

definition new_experience :: "py_env \<Rightarrow> pyval \<Rightarrow> py_error + experience" where
  "new_experience env experience_data =
     and_then (py_get experience_data ''timestamp'' (PStr (now_isoformat env))) (\<lambda>ts.
     and_then (py_get experience_data ''context'' (PDict [])) (\<lambda>ctx.
     and_then (py_get experience_data ''action_taken'' (PStr [])) (\<lambda>act.
     and_then (py_get experience_data ''outcome'' (PDict [])) (\<lambda>out.
     and_then (py_get experience_data ''reward'' (PNum 0)) (\<lambda>rew.
     and_then (py_get experience_data ''confidence'' (PNum 0.5)) (\<lambda>conf.
       Inr \<lparr>exp_timestamp = ts, exp_context = ctx, exp_action_taken = act,
            exp_outcome = out, exp_reward = rew, exp_confidence = conf,
            exp_metadata = []\<rparr>))))))"

text \<open>\<^verbatim>\<open>performance_metrics\<close> is a \<^verbatim>\<open>defaultdict(list)\<close>: a missing key reads as \<open>[]\<close>.\<close>

definition metrics_of :: "(string \<rightharpoonup> pyval list) \<Rightarrow> string \<Rightarrow> pyval list" where
  "metrics_of m k = (case m k of None \<Rightarrow> [] | Some l \<Rightarrow> l)"

definition update_performance_metrics ::
    "learning_core \<Rightarrow> experience \<Rightarrow> (py_error + unit) \<times> learning_core" where
  "update_performance_metrics c x =
     (case py_get (exp_outcome x) ''performance'' (PNum 0) of
        Inl e \<Rightarrow> (Inl e, c)
      | Inr performance \<Rightarrow>
          (Inr (),
           c\<lparr>performance_metrics :=
                (performance_metrics c)
                  (''overall'' \<mapsto>
                     metrics_of (performance_metrics c) ''overall'' @
                       [PDict [(''value'', performance),
                               (''timestamp'', exp_timestamp x)]])\<rparr>))"

text \<open>
  \<^verbatim>\<open>_apply_learning_updates\<close> returns the dictionary of the optimizer's \<^verbatim>\<open>update\<close>
  with the entry \<^verbatim>\<open>performance_improvement\<close> added: here the pair of the two. When
  the optimizer's \<^verbatim>\<open>update\<close> raises, what it had already changed in the optimizer
  stays.
\<close>

definition apply_learning_updates ::
    "learning_core \<Rightarrow> experience \<Rightarrow> (py_error + update_result \<times> real) \<times> learning_core" where
  "apply_learning_updates c x =
     (case and_then (py_get (exp_context x) ''parameters'' (PDict [])) (\<lambda>parameters.
           and_then (py_get (exp_outcome x) ''performance'' (PNum 0)) (\<lambda>performance.
           and_then (py_get (exp_outcome x) ''gradients'' (PDict [])) (\<lambda>gradients.
             Inr ([(''parameters'', parameters), (''performance'', performance)],
                  [(''performance'', performance), (''reward'', exp_reward x),
                   (''gradients'', gradients), (''confidence'', exp_confidence x)])))) of
        Inl e \<Rightarrow> (Inl e, c)
      | Inr (current_state, feedback) \<Rightarrow>
          (case (if current_optimizer c = ''gradient''
                 then (case AdaptiveGradientDescent_update (gradient_optimizer c)
                              current_state feedback of
                         (r, g) \<Rightarrow> (r, c\<lparr>gradient_optimizer := g\<rparr>))
                 else if current_optimizer c = ''bayesian''
                 then (case BayesianOptimizer_update (bayesian_optimizer c)
                              current_state feedback of
                         (r, b) \<Rightarrow> (r, c\<lparr>bayesian_optimizer := b\<rparr>))
                 else (Inr EmptyResult, c)) of
             (Inl e, c1) \<Rightarrow> (Inl e, c1)
           | (Inr update_result, c1) \<Rightarrow>
               (let current_performance = dict_get feedback ''performance'' PNone
                in case py_sub current_performance (last_performance c1) of
                     Inl e \<Rightarrow> (Inl e, c1)
                   | Inr performance_improvement \<Rightarrow>
                       (Inr (update_result, performance_improvement),
                        c1\<lparr>last_performance := current_performance\<rparr>))))"

text \<open>
  \<^verbatim>\<open>_update_rl_agent\<close> catches every exception of its body and logs it: the agent is
  then as it was, and the caller sees nothing.
\<close>

definition rl_agent_step :: "py_env \<Rightarrow> learning_core \<Rightarrow> experience \<Rightarrow> py_error + rl_agent" where
  "rl_agent_step env c x =
     and_then (py_hash env (exp_action_taken x)) (\<lambda>h.
     and_then (py_mod h (int (rl_action_space_size (rl_agent c)))) (\<lambda>action.
     and_then (py_get (exp_outcome x) ''next_state'' (PDict [])) (\<lambda>next_state.
     and_then (py_get (exp_outcome x) ''episode_done'' (PBool False)) (\<lambda>done.
       update_q_value env (rl_agent c) (exp_context x) action (exp_reward x)
         next_state done))))"

definition update_rl_agent :: "py_env \<Rightarrow> learning_core \<Rightarrow> experience \<Rightarrow> learning_core" where
  "update_rl_agent env c x =
     (case rl_agent_step env c x of
        Inl e \<Rightarrow> c
      | Inr a \<Rightarrow> c\<lparr>rl_agent := a\<rparr>)"

text \<open>The two shapes of the dictionary that \<^verbatim>\<open>learn_from_experience\<close> returns.\<close>

definition failure_result :: "py_env \<Rightarrow> py_error \<Rightarrow> pydict" where
  "failure_result env e = [(''error'', PStr (exception_str env e)), (''success'', PBool False)]"

definition success_result ::
    "learning_core \<Rightarrow> real \<Rightarrow> real \<Rightarrow> experience \<Rightarrow> pydict" where
  "success_result c performance_improvement policy_strength x =
     [(''learning_iteration'', PInt (learning_iteration c)),
      (''performance_improvement'', PNum performance_improvement),
      (''current_optimizer'', PStr (current_optimizer c)),
      (''rl_policy_strength'', PNum policy_strength),
      (''confidence'', exp_confidence x),
      (''timestamp'', exp_timestamp x)]"

definition learn_from_experience ::
    "py_env \<Rightarrow> learning_core \<Rightarrow> pyval \<Rightarrow> pydict \<times> learning_core" where
  "learn_from_experience env c experience_data =
     (case new_experience env experience_data of
        Inl e \<Rightarrow> (failure_result env e, c)
      | Inr x \<Rightarrow>
          (let c1 = c\<lparr>learning_experiences := deque_append (learning_experiences c) x\<rparr>
           in case update_performance_metrics c1 x of
                (Inl e, c2) \<Rightarrow> (failure_result env e, c2)
              | (Inr _, c2) \<Rightarrow>
                  (case apply_learning_updates c2 x of
                     (Inl e, c3) \<Rightarrow> (failure_result env e, c3)
                   | (Inr (update_result, performance_improvement), c3) \<Rightarrow>
                       (let c4 = update_rl_agent env c3 x
                        in case get_policy_strength (rl_agent c4) of
                             Inl e \<Rightarrow> (failure_result env e, c4)
                           | Inr policy_strength \<Rightarrow>
                               (success_result c4 performance_improvement policy_strength x,
                                c4\<lparr>learning_iteration := learning_iteration c4 + 1\<rparr>)))))"

text \<open>A result is a failure when it carries \<^verbatim>\<open>'success': False\<close>.\<close>

definition is_failure :: "pydict \<Rightarrow> bool" where
  "is_failure r = (map_of r ''success'' = Some (PBool False) \<and> map_of r ''error'' \<noteq> None)"

subsection \<open>A concrete interpreter\<close>

text \<open>
  The concrete runs below need some interpreter: here every value hashes to 0, so every
  state and every action lands on index 0, and the arithmetic is exact.
\<close>

definition sample_env :: py_env where
  "sample_env =
     \<lparr>builtin_hash = (\<lambda>v. 0),
      sorted_items_str = (\<lambda>d. []),
      now_isoformat = ''2024-01-01T00:00:00'',
      exception_str = (\<lambda>e. ''error''),
      round_float = (\<lambda>x. x)\<rparr>"

text \<open>
  A second interpreter, whose arithmetic does round: its floats are the multiples of
  \<open>2^-20\<close>, and an exact result is rounded to the nearest of them.
\<close>

definition round_binary20 :: "real \<Rightarrow> real" where
  "round_binary20 x = of_int \<lfloor>x * 1048576 + 1/2\<rfloor> / 1048576"

definition rounding_env :: py_env where
  "rounding_env = sample_env\<lparr>round_float := round_binary20\<rparr>"

text \<open>
  Three experiences: one that is processed to the end, one whose action is a dictionary
  and cannot be hashed, so that the update of the RL agent raises, and one whose
  gradients are a string, so that the optimizer's \<^verbatim>\<open>update\<close> raises.
\<close>

definition buy_experience :: pyval where
  "buy_experience =
     PDict [(''action_taken'', PStr ''buy''),
            (''outcome'', PDict [(''performance'', PNum 0.8)]),
            (''reward'', PNum 1)]"

definition unhashable_action_experience :: pyval where
  "unhashable_action_experience =
     PDict [(''action_taken'', PDict [(''name'', PStr ''buy'')]),
            (''outcome'', PDict [(''performance'', PNum 0.8)]),
            (''reward'', PNum 1)]"

definition bad_gradients_experience :: pyval where
  "bad_gradients_experience =
     PDict [(''action_taken'', PStr ''buy''),
            (''outcome'', PDict [(''performance'', PNum 0.8), (''gradients'', PStr ''abc'')]),
            (''reward'', PNum 1)]"

section \<open>Properties\<close>

subsection \<open>Bounded sequences\<close>

lemma maxlen_deque_append [simp]: "maxlen (deque_append d x) = maxlen d"
  by (simp add: deque_append_def Let_def)

lemma items_deque_append:
  "length (items d) \<le> maxlen d \<Longrightarrow>
   items (deque_append d x) = drop (Suc (length (items d)) - maxlen d) (items d @ [x])"
  by (cases "items d") (auto simp: deque_append_def Let_def Suc_diff_le)

lemma length_deque_append:
  "length (items d) \<le> maxlen d \<Longrightarrow> length (items (deque_append d x)) \<le> maxlen d"
  by (auto simp: deque_append_def Let_def)

lemma deque_append_all_drop:
  "length (items d) \<le> maxlen d \<Longrightarrow>
   maxlen (deque_append_all d xs) = maxlen d \<and>
   items (deque_append_all d xs) =
     drop (length (items d) + length xs - maxlen d) (items d @ xs)"
proof (induction xs arbitrary: d)
  case Nil
  then show ?case by simp
next
  case (Cons x xs)
  let ?d = "deque_append d x"
  let ?j = "Suc (length (items d)) - maxlen d"
  have len: "length (items ?d) \<le> maxlen ?d"
    using Cons.prems by (simp add: length_deque_append)
  have it: "items ?d = drop ?j (items d @ [x])"
    using Cons.prems by (rule items_deque_append)
  have j: "?j \<le> Suc (length (items d))" by simp
  have "drop ?j ((items d @ [x]) @ xs) = drop ?j (items d @ [x]) @ xs"
    using j by (simp only: drop_append length_append list.size) simp
  then have cat: "items ?d @ xs = drop ?j (items d @ x # xs)"
    by (simp add: it)
  have n: "length (items ?d) = Suc (length (items d)) - ?j"
    by (simp add: it)
  have "items (deque_append_all ?d xs) =
          drop (length (items ?d) + length xs - maxlen d) (items ?d @ xs)"
    using Cons.IH [OF len] by simp
  also have "\<dots> = drop (length (items ?d) + length xs - maxlen d + ?j) (items d @ x # xs)"
    by (simp only: cat drop_drop)
  also have "length (items ?d) + length xs - maxlen d + ?j =
             length (items d) + length (x # xs) - maxlen d"
    using Cons.prems unfolding n by (cases "length (items d) = maxlen d") auto
  finally show ?case
    using Cons.IH [OF len] by simp
qed


text \<open>A deque that starts empty holds the last \<open>maxlen\<close> of the items appended to it.\<close>

lemma deque_new_append_all:
  "items (deque_append_all (deque_new C) xs) = drop (length xs - C) xs"
  using deque_append_all_drop [of "deque_new C" xs] by (simp add: deque_new_def)

subsection \<open>The Q-learning agent: policy strength\<close>

lemma np_max_Max:
  assumes "xs \<noteq> []"
  shows "np_max xs = Inr (Max (set xs))"
proof (cases xs)
  case Nil
  with assms show ?thesis by simp
next
  case (Cons y ys)
  have "Max (set (y # ys)) = fold max ys y"
    by (rule Max.set_eq_fold)
  then show ?thesis using Cons by simp
qed

lemma np_var_nonneg: "0 \<le> np_var xs"
  by (auto simp: np_var_def np_mean_def intro!: divide_nonneg_nonneg sum_list_nonneg)

text \<open>
  Claim C1, as amended. For every Q-table that has at least one cell and whose maximum
  is not negative, \<^verbatim>\<open>get_policy_strength\<close> returns a number in \<open>[0, 1]\<close>: the variance
  of the table divided by its maximum, or 1 if that is smaller; and it returns exactly
  0 when the maximum is exactly 0, as on an all-zero table.
\<close>

theorem get_policy_strength_range:
  assumes "concat (rl_q_table a) \<noteq> []"
    and "0 \<le> Max (set (concat (rl_q_table a)))"
  shows "(let q = concat (rl_q_table a);
              max_q = Max (set q);
              r = (if max_q = 0 then 0 else min 1 (np_var q / max_q))
          in get_policy_strength a = Inr r \<and> 0 \<le> r \<and> r \<le> 1)"
  using assms np_var_nonneg [of "concat (rl_q_table a)"]
  by (simp add: get_policy_strength_def np_max_Max and_then_def Let_def)

theorem get_policy_strength_range_witness:
  "concat (rl_q_table ((ReinforcementLearningAgent 2 2 0.1 0.95 0.1 0.995)
                          \<lparr>rl_q_table := [[1/2, 0], [0, 0]]\<rparr>)) \<noteq> [] \<and>
   0 \<le> Max (set (concat (rl_q_table ((ReinforcementLearningAgent 2 2 0.1 0.95 0.1 0.995)
                                        \<lparr>rl_q_table := [[1/2, 0], [0, 0]]\<rparr>)))) \<and>
   get_policy_strength ((ReinforcementLearningAgent 2 2 0.1 0.95 0.1 0.995)
                          \<lparr>rl_q_table := [[1/2, 0], [0, 0]]\<rparr>) = Inr (3/32)"
  using get_policy_strength_range
          [of "(ReinforcementLearningAgent 2 2 0.1 0.95 0.1 0.995)
                 \<lparr>rl_q_table := [[1/2, 0], [0, 0]]\<rparr>"]
  by (simp add: np_var_def np_mean_def power2_eq_square Let_def)

text \<open>
  Claim C1 as it is written covers every Q-table. An agent with one state and two
  actions that is updated twice with the rewards -10 and -20 (both terminal) has the
  table \<open>[[-1, -2]]\<close>: its maximum is -1, its variance 1/4, and the policy strength
  returned is -1/4, which is not in \<open>[0, 1]\<close>.
\<close>

theorem negative_table_counterexample:
  "(case q_updates sample_env (ReinforcementLearningAgent 1 2 0.1 0.95 0.1 0.995)
            [(PDict [], 0, PNum (-10), PDict [], PBool True),
             (PDict [], 1, PNum (-20), PDict [], PBool True)] of
      Inl e \<Rightarrow> False
    | Inr a \<Rightarrow> rl_q_table a = [[-1, -2]] \<and> get_policy_strength a = Inr (- (1/4)))"
  by (simp add: sample_env_def ReinforcementLearningAgent_def update_q_value_def and_then_def
        get_state_hash_def py_mod_def np_index_def py_sub_def get_policy_strength_def
        np_var_def np_mean_def power2_eq_square numeral_2_eq_2)

subsection \<open>The Q-learning agent: the decay of epsilon\<close>

lemma update_q_value_epsilon:
  assumes "update_q_value env a state action reward next_state done = Inr a'"
  shows "rl_epsilon a' = max (round_float env (1/100))
                             (round_float env (rl_epsilon a * rl_epsilon_decay a)) \<and>
         rl_epsilon_decay a' = rl_epsilon_decay a"
  using assms
  by (auto simp: update_q_value_def and_then_def split: sum.splits if_splits option.splits)

text \<open>A sequence of calls with one more call at its end.\<close>

lemma q_updates_snoc:
  "q_updates env a (calls @ [(state, action, reward, next_state, done)]) =
     and_then (q_updates env a calls) (\<lambda>a1.
       update_q_value env a1 state action reward next_state done)"
proof (induction calls arbitrary: a)
  case Nil
  show ?case by (simp add: and_then_def split: sum.splits)
next
  case (Cons c calls)
  obtain s1 a1 r1 n1 d1 where c: "c = (s1, a1, r1, n1, d1)"
    by (cases c)
  show ?case
    by (simp add: c Cons.IH and_then_def split: sum.splits)
qed

text \<open>
  What is assumed of the rounding \<open>fl\<close> below: it is monotone, and on the numbers from
  1/200 up to a bound \<open>M\<close> its error is at most \<open>u\<close> times the number rounded. The
  rounding to the nearest double is monotone and has this relative error with
  \<open>u = 2^-53\<close> on every number from the smallest normal double to the largest one.
  Then the float \<^verbatim>\<open>0.01\<close> is at least 3/400, and one application of
  \<open>e \<mapsto> max(0.01, e \<times> d)\<close> in floats stays between the exact products with
  \<open>d \<times> (1 - u)\<close> and with \<open>d \<times> (1 + u)\<close>.
\<close>

lemma rel_err_bounds:
  fixes x y u :: real
  assumes "\<bar>y - x\<bar> \<le> u * x"
  shows "x * (1 - u) \<le> y" "y \<le> x * (1 + u)"
  using assms unfolding abs_le_iff by (simp_all add: algebra_simps)

lemma floor_const_bounds:
  fixes fl :: "real \<Rightarrow> real"
  assumes rel: "\<forall>x. 1/200 \<le> x \<and> x \<le> M \<longrightarrow> \<bar>fl x - x\<bar> \<le> u * x"
    and u: "0 \<le> u" "u \<le> 1/4"
    and M: "1 \<le> M"
  shows "3/400 \<le> fl (1/100)" "fl (1/100) \<le> 1/80" "fl (1/200) \<le> 1/160"
    "1/100 * (1 - u) \<le> fl (1/100)" "fl (1/100) \<le> 1/100 * (1 + u)"
proof -
  have "1/200 \<le> (1/100::real) \<and> 1/100 \<le> M" using M by simp
  then have "\<bar>fl (1/100) - 1/100\<bar> \<le> u * (1/100)" by (rule rel [rule_format])
  note a = rel_err_bounds [OF this]
  have "1/200 \<le> (1/200::real) \<and> 1/200 \<le> M" using M by simp
  then have "\<bar>fl (1/200) - 1/200\<bar> \<le> u * (1/200)" by (rule rel [rule_format])
  note b = rel_err_bounds [OF this]
  show "3/400 \<le> fl (1/100)" using a(1) u by simp
  show "fl (1/100) \<le> 1/80" using a(2) u by simp
  show "fl (1/200) \<le> 1/160" using b(2) u by simp
  show "1/100 * (1 - u) \<le> fl (1/100)" by (rule a(1))
  show "fl (1/100) \<le> 1/100 * (1 + u)" by (rule a(2))
qed

lemma decay_le_one:
  fixes d u :: real
  assumes "0 < d" "d * (1 + u) \<le> 1" "0 \<le> u"
  shows "d \<le> 1"
proof -
  have "d * 1 \<le> d * (1 + u)" using assms by (intro mult_left_mono) simp_all
  then show ?thesis using assms(2) by simp
qed

lemma decay_step_upper:
  fixes fl :: "real \<Rightarrow> real"
  assumes mono: "mono fl"
    and rel: "\<forall>x. 1/200 \<le> x \<and> x \<le> M \<longrightarrow> \<bar>fl x - x\<bar> \<le> u * x"
    and u: "0 \<le> u" "u \<le> 1/4"
    and M: "1 \<le> M"
    and d: "0 < d" "d * (1 + u) \<le> 1"
    and e: "e \<le> X" "X \<le> M"
  shows "max (fl (1/100)) (fl (e * d)) \<le> max (fl (1/100)) (X * (d * (1 + u)))"
proof (cases "1/200 \<le> e * d")
  case True
  have d1: "d \<le> 1" using d u(1) by (rule decay_le_one)
  have epos: "0 < e"
  proof (rule ccontr)
    assume "\<not> 0 < e"
    then have "e * d \<le> 0" using d(1) by (simp add: mult_le_0_iff)
    with True show False by simp
  qed
  have "e * d \<le> e * 1" using epos d1 by (intro mult_left_mono) simp_all
  then have "1/200 \<le> e * d \<and> e * d \<le> M" using e True by simp
  then have "\<bar>fl (e * d) - e * d\<bar> \<le> u * (e * d)" by (rule rel [rule_format])
  then have "fl (e * d) \<le> e * d * (1 + u)" by (rule rel_err_bounds)
  also have "\<dots> = e * (d * (1 + u))" by simp
  also have "\<dots> \<le> X * (d * (1 + u))"
    using e(1) d(1) u(1) by (intro mult_right_mono) simp_all
  finally show ?thesis by (simp add: max.coboundedI2)
next
  case False
  then have "e * d \<le> 1/200" by simp
  then have "fl (e * d) \<le> fl (1/200)" by (rule monoD [OF mono])
  then have "fl (e * d) \<le> fl (1/100)"
    using floor_const_bounds(1,3) [OF rel u M] by simp
  then show ?thesis by (simp add: max.coboundedI1)
qed

lemma decay_step_lower:
  fixes fl :: "real \<Rightarrow> real"
  assumes rel: "\<forall>x. 1/200 \<le> x \<and> x \<le> M \<longrightarrow> \<bar>fl x - x\<bar> \<le> u * x"
    and u: "0 \<le> u" "u \<le> 1/4"
    and M: "1 \<le> M"
    and d: "0 < d" "d * (1 + u) \<le> 1"
    and e: "Y \<le> e" "e \<le> M"
  shows "max (fl (1/100)) (Y * (d * (1 - u))) \<le> max (fl (1/100)) (fl (e * d))"
proof (cases "Y * (d * (1 - u)) \<le> fl (1/100)")
  case True
  then show ?thesis by (simp add: max.coboundedI1)
next
  case False
  note cl = floor_const_bounds(1) [OF rel u M]
  have B: "0 < d * (1 - u)" "d * (1 - u) \<le> d"
    using d(1) u by (simp_all add: mult_le_cancel_left1)
  have d1: "d \<le> 1" using d u(1) by (rule decay_le_one)
  from False cl have big: "3/400 < Y * (d * (1 - u))" by simp
  have Ypos: "0 < Y"
  proof (rule ccontr)
    assume "\<not> 0 < Y"
    then have "Y * (d * (1 - u)) \<le> 0" using B(1) by (simp add: mult_le_0_iff)
    with big show False by simp
  qed
  have epos: "0 < e" using Ypos e(1) by simp
  have Ye: "Y * (d * (1 - u)) \<le> e * (d * (1 - u))"
    using e(1) B(1) by (intro mult_right_mono) simp_all
  also have "\<dots> \<le> e * d" using B(2) epos by (intro mult_left_mono) simp_all
  finally have low: "Y * (d * (1 - u)) \<le> e * d" .
  then have ge: "1/200 \<le> e * d" using big by simp
  have "e * d \<le> e * 1" using epos d1 by (intro mult_left_mono) simp_all
  then have "1/200 \<le> e * d \<and> e * d \<le> M" using e ge by simp
  then have "\<bar>fl (e * d) - e * d\<bar> \<le> u * (e * d)" by (rule rel [rule_format])
  then have "e * d * (1 - u) \<le> fl (e * d)" by (rule rel_err_bounds)
  moreover have "e * d * (1 - u) = e * (d * (1 - u))" by simp
  ultimately have "Y * (d * (1 - u)) \<le> fl (e * d)" using Ye by simp
  then show ?thesis by (simp add: max.coboundedI2)
qed

lemma max_absorb:
  fixes c x y :: real
  assumes "x \<le> c"
  shows "max c (max x y) = max c y"
  using assms by (auto simp: max_def)

lemma q_updates_epsilon_bounds:
  assumes mono: "mono (round_float env)"
    and rel: "\<forall>x. 1/200 \<le> x \<and> x \<le> M \<longrightarrow> \<bar>round_float env x - x\<bar> \<le> u * x"
    and u: "0 \<le> u" "u \<le> 1/4"
    and M: "1 \<le> M" "rl_epsilon a \<le> M"
    and d: "0 < rl_epsilon_decay a" "rl_epsilon_decay a * (1 + u) \<le> 1"
    and run: "q_updates env a calls = Inr a'"
  shows "rl_epsilon_decay a' = rl_epsilon_decay a \<and>
         rl_epsilon a' \<le> max (round_float env (1/100))
                            (rl_epsilon a * (rl_epsilon_decay a * (1 + u)) ^ length calls) \<and>
         rl_epsilon a * (rl_epsilon_decay a * (1 - u)) ^ length calls \<le> rl_epsilon a' \<and>
         (calls \<noteq> [] \<longrightarrow> round_float env (1/100) \<le> rl_epsilon a')"
  using run
proof (induction calls arbitrary: a' rule: rev_induct)
  case Nil
  then show ?case by simp
next
  case (snoc call calls)
  let ?fl = "round_float env"
  let ?c = "?fl (1/100)"
  let ?d = "rl_epsilon_decay a"
  let ?A = "?d * (1 + u)"
  let ?B = "?d * (1 - u)"
  let ?K = "length calls"
  obtain state action reward next_state don
    where call: "call = (state, action, reward, next_state, don)"
    by (cases call)
  from snoc.prems obtain a1 where a1: "q_updates env a calls = Inr a1"
    and last: "update_q_value env a1 state action reward next_state don = Inr a'"
    unfolding call q_updates_snoc by (auto simp: and_then_def split: sum.splits)
  from snoc.IH [OF a1] have dec: "rl_epsilon_decay a1 = ?d"
    and up: "rl_epsilon a1 \<le> max ?c (rl_epsilon a * ?A ^ ?K)"
    and lo: "rl_epsilon a * ?B ^ ?K \<le> rl_epsilon a1"
    by simp_all
  from update_q_value_epsilon [OF last] dec
  have eps: "rl_epsilon a' = max ?c (?fl (rl_epsilon a1 * ?d))"
    and dec': "rl_epsilon_decay a' = ?d"
    by simp_all
  note cb = floor_const_bounds [OF rel u M(1)]
  have A: "0 < ?A" "?A \<le> 1"
    using d u by (simp_all add: mult_pos_pos)
  have AK: "0 \<le> ?A ^ ?K" "?A ^ ?K \<le> 1"
    using A by (simp_all add: power_le_one)
  have "rl_epsilon a * ?A ^ ?K \<le> M"
  proof (cases "0 \<le> rl_epsilon a")
    case True
    then have "rl_epsilon a * ?A ^ ?K \<le> rl_epsilon a * 1"
      using AK by (intro mult_left_mono) simp_all
    then show ?thesis using M(2) by simp
  next
    case False
    then have "rl_epsilon a * ?A ^ ?K \<le> 0"
      using AK(1) by (simp add: mult_le_0_iff)
    then show ?thesis using M(1) by simp
  qed
  then have XM: "max ?c (rl_epsilon a * ?A ^ ?K) \<le> M"
    using cb(2) M(1) by simp
  have "rl_epsilon a' \<le> max ?c (max ?c (rl_epsilon a * ?A ^ ?K) * ?A)"
    unfolding eps by (rule decay_step_upper [OF mono rel u M(1) d up XM])
  also have "max ?c (rl_epsilon a * ?A ^ ?K) * ?A = max (?c * ?A) (rl_epsilon a * ?A ^ ?K * ?A)"
    using A(1) by (simp add: max_mult_distrib_right)
  also have "max ?c (max (?c * ?A) (rl_epsilon a * ?A ^ ?K * ?A)) =
             max ?c (rl_epsilon a * ?A ^ ?K * ?A)"
  proof -
    have "?c * ?A \<le> ?c * 1"
      using A(2) cb(1) by (intro mult_left_mono) simp_all
    then show ?thesis by (intro max_absorb) simp
  qed
  also have "rl_epsilon a * ?A ^ ?K * ?A = rl_epsilon a * ?A ^ Suc ?K"
    by (simp only: power_Suc ac_simps)
  finally have upper: "rl_epsilon a' \<le> max ?c (rl_epsilon a * ?A ^ Suc ?K)" .
  have e1M: "rl_epsilon a1 \<le> M"
    using up XM by (rule order_trans)
  have "max ?c (rl_epsilon a * ?B ^ ?K * ?B) \<le> rl_epsilon a'"
    unfolding eps by (rule decay_step_lower [OF rel u M(1) d lo e1M])
  moreover have "rl_epsilon a * ?B ^ ?K * ?B = rl_epsilon a * ?B ^ Suc ?K"
    by (simp only: power_Suc ac_simps)
  ultimately have lower: "rl_epsilon a * ?B ^ Suc ?K \<le> rl_epsilon a'"
    and floor: "?c \<le> rl_epsilon a'"
    by simp_all
  show ?case
    using dec' upper lower floor by simp
qed


text \<open>
  With exact arithmetic the two bounds coincide: epsilon is \<open>max(0.01, \<epsilon>\<^sub>0 \<times> d^K)\<close>.
\<close>

lemma q_updates_epsilon_exact:
  assumes run: "q_updates env a calls = Inr a'"
    and exact: "round_float env = (\<lambda>x. x)"
    and d: "0 < rl_epsilon_decay a" "rl_epsilon_decay a \<le> 1"
    and start: "calls \<noteq> [] \<or> 0.01 \<le> rl_epsilon a"
  shows "rl_epsilon a' = max 0.01 (rl_epsilon a * rl_epsilon_decay a ^ length calls)"
proof -
  have rel: "\<forall>x. 1/200 \<le> x \<and> x \<le> max 1 (rl_epsilon a) \<longrightarrow>
               \<bar>round_float env x - x\<bar> \<le> 0 * x"
    by (simp add: exact)
  have mono: "mono (round_float env)"
    by (simp add: exact mono_def)
  from q_updates_epsilon_bounds [OF mono rel _ _ _ _ _ _ run] d
  have "rl_epsilon a' \<le> max (1/100) (rl_epsilon a * rl_epsilon_decay a ^ length calls)"
    and "rl_epsilon a * rl_epsilon_decay a ^ length calls \<le> rl_epsilon a'"
    and "calls \<noteq> [] \<longrightarrow> 1/100 \<le> rl_epsilon a'"
    by (simp_all add: exact)
  then show ?thesis
    using start by (cases calls) (auto simp: max_def)
qed

text \<open>
  Claim C4, as amended. Take an agent with initial epsilon \<open>\<epsilon>\<^sub>0\<close> and epsilon decay \<open>d\<close>,
  and a rounding that is monotone and has a relative error of at most \<open>u \<le> 1/4\<close> on the
  numbers from 0.005 up to a bound \<open>M \<ge> 1\<close> that \<open>\<epsilon>\<^sub>0\<close> does not exceed, with \<open>0 < d\<close>
  and \<open>d \<times> (1 + u) \<le> 1\<close>; for doubles \<open>u = 2^-53\<close>, and every double \<open>d\<close> strictly
  between 0 and 1 qualifies. After \<open>K\<close> consecutive \<^verbatim>\<open>update_q_value\<close> calls that all
  return, whatever their arguments, and provided that \<open>K \<ge> 1\<close> or that \<open>\<epsilon>\<^sub>0\<close> is at least the
  float \<^verbatim>\<open>0.01\<close>, the agent's epsilon is \<open>max(0.01, \<epsilon>\<^sub>0 \<times> d^K)\<close> up to the rounding of
  the \<open>K\<close> products: it lies between \<open>max(c, \<epsilon>\<^sub>0 \<times> (d \<times> (1 - u))^K)\<close> and
  \<open>max(c, \<epsilon>\<^sub>0 \<times> (d \<times> (1 + u))^K)\<close>, where \<open>c\<close> is the float \<^verbatim>\<open>0.01\<close>, itself between
  \<open>0.01 \<times> (1 - u)\<close> and \<open>0.01 \<times> (1 + u)\<close>.
\<close>

theorem epsilon_after_updates:
  assumes run: "q_updates env a calls = Inr a'"
    and mono: "mono (round_float env)"
    and rel: "\<forall>x. 0.005 \<le> x \<and> x \<le> M \<longrightarrow> \<bar>round_float env x - x\<bar> \<le> u * x"
    and u: "0 \<le> u" "u \<le> 1/4"
    and M: "1 \<le> M" "rl_epsilon a \<le> M"
    and d: "0 < rl_epsilon_decay a" "rl_epsilon_decay a * (1 + u) \<le> 1"
    and start: "calls \<noteq> [] \<or> round_float env 0.01 \<le> rl_epsilon a"
  shows "max (round_float env 0.01)
             (rl_epsilon a * (rl_epsilon_decay a * (1 - u)) ^ length calls) \<le> rl_epsilon a' \<and>
         rl_epsilon a' \<le> max (round_float env 0.01)
                            (rl_epsilon a * (rl_epsilon_decay a * (1 + u)) ^ length calls) \<and>
         0.01 * (1 - u) \<le> round_float env 0.01 \<and>
         round_float env 0.01 \<le> 0.01 * (1 + u)"
proof -
  have rel': "\<forall>x. 1/200 \<le> x \<and> x \<le> M \<longrightarrow> \<bar>round_float env x - x\<bar> \<le> u * x"
    using rel by simp
  note b = q_updates_epsilon_bounds [OF mono rel' u M d run]
  note cb = floor_const_bounds(4,5) [OF rel' u M(1)]
  have low: "max (round_float env (1/100))
               (rl_epsilon a * (rl_epsilon_decay a * (1 - u)) ^ length calls) \<le> rl_epsilon a'"
  proof (cases calls)
    case Nil
    with start b show ?thesis by simp
  next
    case (Cons c cs)
    with b show ?thesis by simp
  qed
  show ?thesis
    using low b cb by simp
qed

text \<open>
  The rounding to 20 binary places is monotone, and its error of at most \<open>2^-21\<close> is a
  relative error of at most 25/262144 on the numbers from 0.005 on.
\<close>

lemma round_binary20_mono: "mono round_binary20"
  by (rule monoI) (simp add: round_binary20_def divide_right_mono floor_mono)

lemma round_binary20_error: "\<bar>round_binary20 x - x\<bar> \<le> 1 / 2097152"
proof -
  define z :: real where "z = of_int \<lfloor>x * 1048576 + 1/2\<rfloor>"
  have "z \<le> x * 1048576 + 1/2" "x * 1048576 + 1/2 < z + 1"
    unfolding z_def by linarith+
  then have "\<bar>z / 1048576 - x\<bar> \<le> 1 / 2097152"
    unfolding abs_le_iff by (simp add: field_simps)
  then show ?thesis by (simp only: round_binary20_def z_def)
qed

lemma round_binary20_relative:
  "\<forall>x. 0.005 \<le> x \<and> x \<le> 1 \<longrightarrow> \<bar>round_binary20 x - x\<bar> \<le> 25/262144 * x"
proof (intro allI impI)
  fix x :: real assume x: "0.005 \<le> x \<and> x \<le> 1"
  have "\<bar>round_binary20 x - x\<bar> \<le> 1 / 2097152"
    by (rule round_binary20_error)
  also have "\<dots> \<le> 25/262144 * x"
    using x by simp
  finally show "\<bar>round_binary20 x - x\<bar> \<le> 25/262144 * x" .
qed

text \<open>
  Two updates of an agent with epsilon 0.1 and decay 0.995 under that rounding: the
  epsilon reached, 103811/1048576, lies between the two bounds, and it is not the
  \<open>max(0.01, 0.1 \<times> 0.995^2)\<close> of exact arithmetic.
\<close>

theorem epsilon_after_updates_witness:
  "q_updates rounding_env (ReinforcementLearningAgent 2 2 0.1 0.95 0.1 0.995)
      [(PDict [], 0, PNum 1, PDict [], PBool False),
       (PDict [], 1, PNum 2, PDict [], PBool True)]
     = Inr ((ReinforcementLearningAgent 2 2 0.1 0.95 0.1 0.995)
              \<lparr>rl_epsilon := 103811/1048576,
               rl_q_table := [[104858/1048576, 209715/1048576], [0, 0]]\<rparr>) \<and>
   mono (round_float rounding_env) \<and>
   round_float rounding_env 0.01 = 10486/1048576 \<and>
   max (10486/1048576) (0.1 * (0.995 * (1 - 25/262144)) ^ 2) \<le> (103811/1048576 :: real) \<and>
   (103811/1048576 :: real) \<le> max (10486/1048576) (0.1 * (0.995 * (1 + 25/262144)) ^ 2) \<and>
   (103811/1048576 :: real) \<noteq> max 0.01 (0.1 * 0.995 ^ 2)"
proof -
  let ?a = "ReinforcementLearningAgent 2 2 0.1 0.95 0.1 0.995"
  have run: "q_updates rounding_env ?a
      [(PDict [], 0, PNum 1, PDict [], PBool False),
       (PDict [], 1, PNum 2, PDict [], PBool True)]
     = Inr (?a\<lparr>rl_epsilon := 103811/1048576,
               rl_q_table := [[104858/1048576, 209715/1048576], [0, 0]]\<rparr>)"
    by (simp add: rounding_env_def sample_env_def round_binary20_def
        ReinforcementLearningAgent_def update_q_value_def and_then_def
        get_state_hash_def py_mod_def np_index_def numeral_2_eq_2)
  have rf: "round_float rounding_env = round_binary20"
    by (simp add: rounding_env_def)
  have mono: "mono (round_float rounding_env)"
    unfolding rf by (rule round_binary20_mono)
  have rel: "\<forall>x. 0.005 \<le> x \<and> x \<le> 1 \<longrightarrow>
               \<bar>round_float rounding_env x - x\<bar> \<le> 25/262144 * x"
    unfolding rf by (rule round_binary20_relative)
  have c: "round_float rounding_env 0.01 = 10486/1048576"
    unfolding rf by (simp add: round_binary20_def)
  have h: "(0::real) \<le> 25/262144" "(25/262144::real) \<le> 1/4" "(1::real) \<le> 1"
      "rl_epsilon ?a \<le> 1" "0 < rl_epsilon_decay ?a"
      "rl_epsilon_decay ?a * (1 + 25/262144) \<le> 1"
    by (simp_all add: ReinforcementLearningAgent_def)
  have start: "[(PDict [], 0 :: int, PNum 1, PDict [], PBool False),
                (PDict [], 1, PNum 2, PDict [], PBool True)] \<noteq> [] \<or>
               round_float rounding_env 0.01 \<le> rl_epsilon ?a"
    by simp
  from epsilon_after_updates [OF run mono rel h start]
  have "max (10486/1048576) (0.1 * (0.995 * (1 - 25/262144)) ^ 2) \<le> (103811/1048576 :: real) \<and>
        (103811/1048576 :: real) \<le> max (10486/1048576) (0.1 * (0.995 * (1 + 25/262144)) ^ 2)"
    unfolding c by (simp add: ReinforcementLearningAgent_def power2_eq_square)
  moreover have "(103811/1048576 :: real) \<noteq> max 0.01 (0.1 * 0.995 ^ 2)"
    by (simp add: power2_eq_square)
  ultimately show ?thesis
    using run mono c by simp
qed

text \<open>
  Claim C4 as it is written covers \<open>K = 0\<close> and every initial epsilon. An agent
  constructed with \<^verbatim>\<open>epsilon=0.005\<close> and not updated at all has epsilon 0.005,
  not \<open>max(0.01, 0.005 \<times> 0.995^0) = 0.01\<close>: the floor is applied by an update only.
\<close>

theorem epsilon_before_updates_counterexample:
  "(case q_updates sample_env (ReinforcementLearningAgent 1000 10 0.1 0.95 0.005 0.995) [] of
      Inl e \<Rightarrow> False
    | Inr a \<Rightarrow> rl_epsilon a = 0.005 \<and>
              rl_epsilon a \<noteq> max 0.01 (0.005 * 0.995 ^ length ([] :: unit list)))"
  by (simp add: ReinforcementLearningAgent_def)

subsection \<open>The Q-learning agent: the update of the table\<close>

lemma get_state_hash_range:
  assumes "get_state_hash env a state = Inr h"
  shows "0 \<le> h \<and> h < int (rl_state_space_size a)"
  using assms
  by (auto simp: get_state_hash_def and_then_def py_mod_def split: sum.splits if_splits)

lemma np_index_nat:
  assumes "0 \<le> i" "i < int n"
  shows "np_index n i = Inr (nat i)"
  using assms by (simp add: np_index_def)

text \<open>
  The values that are taken to a float without an exception: a float, an integer within
  the range of the floats, a boolean.
\<close>

lemma py_float_returns:
  "py_float rnd v = Inr r \<longleftrightarrow>
     v = PNum r \<or>
     (\<exists>i. v = PInt i \<and> \<bar>i\<bar> < float_overflow \<and> r = rnd (of_int i)) \<or>
     (\<exists>b. v = PBool b \<and> r = (if b then 1 else 0))"
  by (cases v) auto

text \<open>
  Claim C9. Take an agent whose table has \<^verbatim>\<open>state_space_size\<close> rows of
  \<^verbatim>\<open>action_space_size\<close> cells, a state and a next state that hash to the indices
  \<open>s\<close> and \<open>n\<close>, an action index \<open>j\<close> from 0 up to \<^verbatim>\<open>action_space_size - 1\<close> and a
  reward that is a number within the range of the floats: a float, a boolean, or an
  integer below \<open>2^1024 - 2^970\<close> in absolute value. Let \<open>r\<close> be the reward as a float,
  which is the reward itself when it is a float. Then \<^verbatim>\<open>update_q_value\<close> returns; the
  target is \<open>r\<close> itself when \<^verbatim>\<open>done\<close> is true and \<open>r + discount_factor \<times> max Q[n]\<close>
  when it is not; the cell \<open>Q[s, j]\<close> becomes its old value plus
  \<open>learning_rate \<times> (target - old value)\<close>; and every other cell of the table keeps its
  value. Each sum, difference and product is the rounded one that the machine returns.
\<close>

theorem update_q_value_cell:
  assumes shape: "length (rl_q_table a) = rl_state_space_size a"
      "\<forall>row \<in> set (rl_q_table a). length row = rl_action_space_size a"
    and hashes: "get_state_hash env a state = Inr state_hash"
      "get_state_hash env a next_state = Inr next_state_hash"
    and action: "0 \<le> action" "action < int (rl_action_space_size a)"
    and reward: "py_float (round_float env) reward = Inr r"
  shows "(let fl = round_float env;
              q = rl_q_table a;
              s = nat state_hash;
              n = nat next_state_hash;
              j = nat action;
              target = (if truthy done then r
                        else fl (r + fl (rl_discount_factor a * Max (set (q ! n)))));
              new_q = fl (q ! s ! j + fl (rl_learning_rate a * fl (target - q ! s ! j)))
          in update_q_value env a state action reward next_state done =
               Inr (a\<lparr>rl_q_table := q[s := (q ! s)[j := new_q]],
                      rl_epsilon := max (fl 0.01) (fl (rl_epsilon a * rl_epsilon_decay a))\<rparr>) \<and>
             (\<forall>i < rl_state_space_size a. \<forall>k < rl_action_space_size a.
                q[s := (q ! s)[j := new_q]] ! i ! k =
                  (if i = s \<and> k = j then new_q else q ! i ! k)))"
proof -
  let ?fl = "round_float env"
  let ?q = "rl_q_table a"
  let ?S = "rl_state_space_size a"
  let ?s = "nat state_hash"
  let ?n = "nat next_state_hash"
  let ?j = "nat action"
  note rs = get_state_hash_range [OF hashes(1)]
  note rn = get_state_hash_range [OF hashes(2)]
  have s: "?s < ?S" and n: "?n < ?S"
    using rs rn by (auto simp: nat_less_iff)
  have rows: "length (?q ! i) = rl_action_space_size a" if "i < ?S" for i
    using shape that by (metis nth_mem)
  have j: "?j < rl_action_space_size a"
    using action by simp
  have ixs: "np_index (length ?q) state_hash = Inr ?s"
    and ixn: "np_index (length ?q) next_state_hash = Inr ?n"
    using rs rn shape(1) by (simp_all add: np_index_nat)
  have ixj: "np_index (length (?q ! ?s)) action = Inr ?j"
    using action rows [OF s] by (simp add: np_index_nat)
  have "?q ! ?n \<noteq> []"
    using rows [OF n] j by auto
  then have mx: "np_max (?q ! ?n) = Inr (Max (set (?q ! ?n)))"
    by (rule np_max_Max)
  have run: "update_q_value env a state action reward next_state done =
      Inr (a\<lparr>rl_q_table := ?q[?s := (?q ! ?s)[?j := ?fl (?q ! ?s ! ?j + ?fl (rl_learning_rate a *
                 ?fl ((if truthy done then r
                       else ?fl (r + ?fl (rl_discount_factor a * Max (set (?q ! ?n)))))
                      - ?q ! ?s ! ?j)))]],
             rl_epsilon := max (?fl 0.01) (?fl (rl_epsilon a * rl_epsilon_decay a))\<rparr>)"
    by (simp add: update_q_value_def hashes and_then_def ixs ixn ixj mx reward)
  have cells: "?q[?s := (?q ! ?s)[?j := v]] ! i ! k = (if i = ?s \<and> k = ?j then v else ?q ! i ! k)"
    if "i < ?S" "k < rl_action_space_size a" for i k v
    using that s shape(1) rows [OF s] by (cases "i = ?s") (simp_all add: nth_list_update)
  show ?thesis
    unfolding Let_def using run cells by simp
qed

text \<open>
  With the same table, states and action, a reward that is not a number makes the
  call raise \<^verbatim>\<open>TypeError\<close> and an integer beyond the floats \<^verbatim>\<open>OverflowError\<close>: then
  no cell is written and epsilon does not decay.
\<close>

lemma update_q_value_reward_raises:
  assumes shape: "length (rl_q_table a) = rl_state_space_size a"
      "\<forall>row \<in> set (rl_q_table a). length row = rl_action_space_size a"
    and hashes: "get_state_hash env a state = Inr state_hash"
      "get_state_hash env a next_state = Inr next_state_hash"
    and action: "0 \<le> action" "action < int (rl_action_space_size a)"
    and reward: "py_float (round_float env) reward = Inl e"
  shows "update_q_value env a state action reward next_state done = Inl e"
proof -
  let ?q = "rl_q_table a"
  let ?S = "rl_state_space_size a"
  let ?s = "nat state_hash"
  let ?n = "nat next_state_hash"
  let ?j = "nat action"
  note rs = get_state_hash_range [OF hashes(1)]
  note rn = get_state_hash_range [OF hashes(2)]
  have s: "?s < ?S" and n: "?n < ?S"
    using rs rn by (auto simp: nat_less_iff)
  have rows: "length (?q ! i) = rl_action_space_size a" if "i < ?S" for i
    using shape that by (metis nth_mem)
  have j: "?j < rl_action_space_size a"
    using action by simp
  have ixs: "np_index (length ?q) state_hash = Inr ?s"
    and ixn: "np_index (length ?q) next_state_hash = Inr ?n"
    using rs rn shape(1) by (simp_all add: np_index_nat)
  have ixj: "np_index (length (?q ! ?s)) action = Inr ?j"
    using action rows [OF s] by (simp add: np_index_nat)
  have "?q ! ?n \<noteq> []"
    using rows [OF n] j by auto
  then have mx: "np_max (?q ! ?n) = Inr (Max (set (?q ! ?n)))"
    by (rule np_max_Max)
  show ?thesis
    by (simp add: update_q_value_def hashes and_then_def ixs ixn ixj mx reward)
qed

text \<open>
  A run under the rounding to 20 binary places, with the integer reward 1 and
  \<^verbatim>\<open>done\<close> false: the target is 1 + 0.95 \<times> 3 rounded, and the cell \<open>Q[0, 1]\<close> goes
  from 2 to 2291139/1048576.
\<close>

theorem update_q_value_cell_witness:
  "length (rl_q_table ((ReinforcementLearningAgent 2 3 0.1 0.95 0.1 0.995)
                          \<lparr>rl_q_table := [[1, 2, 3], [0, 0, 0]]\<rparr>))
     = rl_state_space_size ((ReinforcementLearningAgent 2 3 0.1 0.95 0.1 0.995)
                          \<lparr>rl_q_table := [[1, 2, 3], [0, 0, 0]]\<rparr>) \<and>
   list_all (\<lambda>row. length row =
               rl_action_space_size ((ReinforcementLearningAgent 2 3 0.1 0.95 0.1 0.995)
                                       \<lparr>rl_q_table := [[1, 2, 3], [0, 0, 0]]\<rparr>))
     (rl_q_table ((ReinforcementLearningAgent 2 3 0.1 0.95 0.1 0.995)
                    \<lparr>rl_q_table := [[1, 2, 3], [0, 0, 0]]\<rparr>)) \<and>
   get_state_hash rounding_env ((ReinforcementLearningAgent 2 3 0.1 0.95 0.1 0.995)
                          \<lparr>rl_q_table := [[1, 2, 3], [0, 0, 0]]\<rparr>) (PDict []) = Inr 0 \<and>
   (0::int) \<le> 1 \<and>
   (1::int) < int (rl_action_space_size ((ReinforcementLearningAgent 2 3 0.1 0.95 0.1 0.995)
                          \<lparr>rl_q_table := [[1, 2, 3], [0, 0, 0]]\<rparr>)) \<and>
   py_float (round_float rounding_env) (PInt 1) = Inr 1 \<and>
   update_q_value rounding_env ((ReinforcementLearningAgent 2 3 0.1 0.95 0.1 0.995)
                          \<lparr>rl_q_table := [[1, 2, 3], [0, 0, 0]]\<rparr>)
       (PDict []) 1 (PInt 1) (PDict []) (PBool False)
     = Inr ((ReinforcementLearningAgent 2 3 0.1 0.95 0.1 0.995)
              \<lparr>rl_q_table := [[1, 2291139/1048576, 3], [0, 0, 0]],
               rl_epsilon := 104333/1048576\<rparr>)"
proof -
  let ?a = "(ReinforcementLearningAgent 2 3 0.1 0.95 0.1 0.995)
              \<lparr>rl_q_table := [[1, 2, 3], [0, 0, 0]]\<rparr>"
  have shape1: "length (rl_q_table ?a) = rl_state_space_size ?a"
    by (simp add: ReinforcementLearningAgent_def)
  have shape2: "\<forall>row \<in> set (rl_q_table ?a). length row = rl_action_space_size ?a"
    by (simp add: ReinforcementLearningAgent_def)
  have h: "get_state_hash rounding_env ?a (PDict []) = Inr 0"
    by (simp add: get_state_hash_def and_then_def py_mod_def rounding_env_def sample_env_def
          ReinforcementLearningAgent_def)
  have act: "(0::int) \<le> 1" "(1::int) < int (rl_action_space_size ?a)"
    by (simp_all add: ReinforcementLearningAgent_def)
  have rf: "round_float rounding_env = round_binary20"
    by (simp add: rounding_env_def)
  have rew: "py_float (round_float rounding_env) (PInt 1) = Inr 1"
    by (simp add: rf round_binary20_def float_overflow_def)
  show ?thesis
    using update_q_value_cell [OF shape1 shape2 h h act rew, of "PBool False"]
      shape1 shape2 h act rew
    by (simp add: Let_def ReinforcementLearningAgent_def rf round_binary20_def)
qed

subsection \<open>The adaptive gradient descent: the learning rate\<close>

lemma update_velocities_keeps:
  "gd_learning_rate (snd (update_velocities g gs)) = gd_learning_rate g \<and>
   gd_base_learning_rate (snd (update_velocities g gs)) = gd_base_learning_rate g \<and>
   gd_adaptive_factor (snd (update_velocities g gs)) = gd_adaptive_factor g \<and>
   gd_decay_factor (snd (update_velocities g gs)) = gd_decay_factor g \<and>
   gd_performance_history (snd (update_velocities g gs)) = gd_performance_history g"
proof (induction gs arbitrary: g)
  case Nil
  show ?case by simp
next
  case (Cons p gs)
  obtain param_name gradient where p: "p = (param_name, gradient)"
    by (cases p)
  show ?case
    unfolding p
    by (simp add: Let_def Cons.IH split: option.split sum.split)
qed

lemma gradient_update_fields:
  fixes g current_state feedback
  defines "g' \<equiv> snd (AdaptiveGradientDescent_update g current_state feedback)"
    and "h \<equiv> items (deque_append (gd_performance_history g)
                       (dict_get feedback ''performance'' (PNum 0)))"
  shows "gd_learning_rate g' =
           (if 2 \<le> length h
            then (case py_gt (h ! (length h - 1)) (h ! (length h - 2)) of
                    Inl e \<Rightarrow> gd_learning_rate g
                  | Inr improved \<Rightarrow>
                      if improved
                      then min (gd_learning_rate g * gd_adaptive_factor g)
                               (gd_base_learning_rate g * 2)
                      else gd_learning_rate g * gd_decay_factor g)
            else gd_learning_rate g)"
    and "gd_base_learning_rate g' = gd_base_learning_rate g"
    and "gd_adaptive_factor g' = gd_adaptive_factor g"
    and "gd_decay_factor g' = gd_decay_factor g"
    and "gd_performance_history g' =
           deque_append (gd_performance_history g) (dict_get feedback ''performance'' (PNum 0))"
  unfolding g'_def h_def AdaptiveGradientDescent_update_def
  using update_velocities_keeps
  by (auto simp: Let_def split: sum.splits prod.splits if_splits dest!: arg_cong [where f = snd])

lemma window_last_two:
  assumes "2 \<le> maxlen d" "length (items d) \<le> maxlen d" "items d \<noteq> []"
  shows "2 \<le> length (items (deque_append d x)) \<and>
         items (deque_append d x) ! (length (items (deque_append d x)) - 1) = x \<and>
         items (deque_append d x) ! (length (items (deque_append d x)) - 2) = last (items d)"
proof -
  obtain ys where h: "items (deque_append d x) = ys @ [x]" and ys: "ys \<noteq> []"
    and l: "last ys = last (items d)"
  proof (cases "maxlen d < Suc (length (items d))")
    case True
    then have len: "2 \<le> length (items d)" using assms by simp
    then obtain y z zs where "items d = y # z # zs"
      by (cases "items d"; cases "tl (items d)") auto
    then show ?thesis
      using True that [of "tl (items d)"] by (simp add: deque_append_def Let_def)
  next
    case False
    then show ?thesis
      using assms(3) that [of "items d"] by (simp add: deque_append_def Let_def)
  qed
  have "(ys @ [x]) ! (length (ys @ [x]) - 2) = last ys"
    using ys by (simp add: nth_append last_conv_nth)
  moreover have "1 \<le> length ys"
    using ys by (cases ys) simp_all
  ultimately show ?thesis
    using l by (simp add: h)
qed


lemma gradient_update_invariant:
  fixes g current_state feedback
  defines "g' \<equiv> snd (AdaptiveGradientDescent_update g current_state feedback)"
  assumes rate: "0 < gd_learning_rate g" "gd_learning_rate g \<le> 2 * gd_base_learning_rate g"
    and factors: "1 < gd_adaptive_factor g" "0 < gd_decay_factor g" "gd_decay_factor g < 1"
    and window: "maxlen (gd_performance_history g) = 50"
      "length (items (gd_performance_history g)) \<le> 50"
  shows "0 < gd_learning_rate g' \<and> gd_learning_rate g' \<le> 2 * gd_base_learning_rate g' \<and>
         gd_base_learning_rate g' = gd_base_learning_rate g \<and>
         1 < gd_adaptive_factor g' \<and> 0 < gd_decay_factor g' \<and> gd_decay_factor g' < 1 \<and>
         maxlen (gd_performance_history g') = 50 \<and>
         length (items (gd_performance_history g')) \<le> 50"
proof -
  note f = gradient_update_fields [of g current_state feedback, folded g'_def]
  have up: "0 < gd_learning_rate g * gd_adaptive_factor g"
    using rate(1) factors(1) by simp
  have down: "0 < gd_learning_rate g * gd_decay_factor g"
    "gd_learning_rate g * gd_decay_factor g \<le> gd_learning_rate g"
    using rate(1) factors(2,3) by simp_all
  have "0 < gd_learning_rate g' \<and> gd_learning_rate g' \<le> 2 * gd_base_learning_rate g"
    unfolding f(1) using rate up down
    by (auto split: sum.splits)
  moreover have "length (items (gd_performance_history g')) \<le> 50"
    unfolding f(5) using length_deque_append [of "gd_performance_history g"] window by simp
  ultimately show ?thesis
    using factors window(1) by (simp add: f)
qed

lemma gradient_updates_invariant:
  assumes "0 < gd_learning_rate g" "gd_learning_rate g \<le> 2 * gd_base_learning_rate g"
    and "1 < gd_adaptive_factor g" "0 < gd_decay_factor g" "gd_decay_factor g < 1"
    and "maxlen (gd_performance_history g) = 50"
      "length (items (gd_performance_history g)) \<le> 50"
  shows "0 < gd_learning_rate (gradient_updates g calls) \<and>
         gd_learning_rate (gradient_updates g calls)
           \<le> 2 * gd_base_learning_rate (gradient_updates g calls) \<and>
         gd_base_learning_rate (gradient_updates g calls) = gd_base_learning_rate g \<and>
         1 < gd_adaptive_factor (gradient_updates g calls) \<and>
         0 < gd_decay_factor (gradient_updates g calls) \<and>
         gd_decay_factor (gradient_updates g calls) < 1 \<and>
         maxlen (gd_performance_history (gradient_updates g calls)) = 50 \<and>
         length (items (gd_performance_history (gradient_updates g calls))) \<le> 50"
  using assms
proof (induction calls arbitrary: g)
  case Nil
  then show ?case by simp
next
  case (Cons c calls)
  obtain current_state feedback where c: "c = (current_state, feedback)"
    by (cases c)
  let ?g = "snd (AdaptiveGradientDescent_update g current_state feedback)"
  note step = gradient_update_invariant [OF Cons.prems, of current_state feedback]
  have "gd_base_learning_rate (gradient_updates ?g calls) = gd_base_learning_rate ?g"
    and rest: "0 < gd_learning_rate (gradient_updates ?g calls) \<and>
         gd_learning_rate (gradient_updates ?g calls)
           \<le> 2 * gd_base_learning_rate (gradient_updates ?g calls) \<and>
         1 < gd_adaptive_factor (gradient_updates ?g calls) \<and>
         0 < gd_decay_factor (gradient_updates ?g calls) \<and>
         gd_decay_factor (gradient_updates ?g calls) < 1 \<and>
         maxlen (gd_performance_history (gradient_updates ?g calls)) = 50 \<and>
         length (items (gd_performance_history (gradient_updates ?g calls))) \<le> 50"
    using Cons.IH [of ?g] step by simp_all
  then show ?case
    using step by (simp add: c)
qed

text \<open>
  Claim C5. Take a gradient optimizer constructed with a learning rate above 0, an
  adaptive factor above 1 and a decay factor strictly between 0 and 1, so that its
  learning rate starts at the base learning rate. After any sequence of
  \<^verbatim>\<open>update\<close> calls, and after one more, the learning rate is at most twice the base
  learning rate; and when the performance of that further call is strictly greater than
  the performance observed before it, the call does not decrease the learning rate.
\<close>

theorem gradient_learning_rate_bounded:
  assumes "1 < adaptive_factor" "0 < decay_factor" "decay_factor < 1" "0 < learning_rate"
    and "g = gradient_updates
               (AdaptiveGradientDescent learning_rate momentum adaptive_factor decay_factor)
               calls"
    and "g' = snd (AdaptiveGradientDescent_update g current_state feedback)"
  shows "gd_base_learning_rate g = learning_rate \<and>
         gd_learning_rate g \<le> 2 * learning_rate \<and>
         gd_learning_rate g' \<le> 2 * learning_rate \<and>
         (items (gd_performance_history g) \<noteq> [] \<and>
          py_gt (dict_get feedback ''performance'' (PNum 0))
                (last (items (gd_performance_history g))) = Inr True
            \<longrightarrow> gd_learning_rate g \<le> gd_learning_rate g')"
proof -
  let ?g0 = "AdaptiveGradientDescent learning_rate momentum adaptive_factor decay_factor"
  have inv: "0 < gd_learning_rate g" "gd_learning_rate g \<le> 2 * gd_base_learning_rate g"
      "gd_base_learning_rate g = learning_rate"
      "1 < gd_adaptive_factor g" "0 < gd_decay_factor g" "gd_decay_factor g < 1"
      "maxlen (gd_performance_history g) = 50"
      "length (items (gd_performance_history g)) \<le> 50"
    using gradient_updates_invariant [of ?g0 calls] assms(1-4)
    unfolding assms(5) by (simp_all add: AdaptiveGradientDescent_def deque_new_def)
  note step = gradient_update_invariant
    [OF inv(1,2,4,5,6,7,8), of current_state feedback, folded assms(6)]
  have grow: "gd_learning_rate g \<le> gd_learning_rate g'"
    if ne: "items (gd_performance_history g) \<noteq> []"
      and gt: "py_gt (dict_get feedback ''performance'' (PNum 0))
                 (last (items (gd_performance_history g))) = Inr True"
  proof -
    note w = window_last_two [of "gd_performance_history g"
        "dict_get feedback ''performance'' (PNum 0)"]
    have "gd_learning_rate g' =
            min (gd_learning_rate g * gd_adaptive_factor g) (gd_base_learning_rate g * 2)"
      unfolding assms(6) gradient_update_fields(1)
      using w inv(7,8) ne gt by simp
    moreover have "gd_learning_rate g \<le> gd_learning_rate g * gd_adaptive_factor g"
      using inv(1,4) by simp
    ultimately show ?thesis
      using inv(2) by simp
  qed
  show ?thesis
    using inv step grow by simp
qed

theorem gradient_learning_rate_bounded_witness:
  "(1::real) < 1.1 \<and> (0::real) < 0.95 \<and> (0.95::real) < 1 \<and> (0::real) < 0.01 \<and>
   items (gd_performance_history
            (gradient_updates (AdaptiveGradientDescent 0.01 0.9 1.1 0.95)
               [([], [(''performance'', PNum 0.5)])])) = [PNum 0.5] \<and>
   py_gt (dict_get [(''performance'', PNum 0.8)] ''performance'' (PNum 0))
         (last (items (gd_performance_history
            (gradient_updates (AdaptiveGradientDescent 0.01 0.9 1.1 0.95)
               [([], [(''performance'', PNum 0.5)])])))) = Inr True \<and>
   gd_learning_rate
     (gradient_updates (AdaptiveGradientDescent 0.01 0.9 1.1 0.95)
        [([], [(''performance'', PNum 0.5)])]) \<le> 2 * 0.01 \<and>
   gd_learning_rate
     (snd (AdaptiveGradientDescent_update
             (gradient_updates (AdaptiveGradientDescent 0.01 0.9 1.1 0.95)
                [([], [(''performance'', PNum 0.5)])])
             [] [(''performance'', PNum 0.8)])) \<le> 2 * 0.01 \<and>
   gd_learning_rate
     (gradient_updates (AdaptiveGradientDescent 0.01 0.9 1.1 0.95)
        [([], [(''performance'', PNum 0.5)])])
     \<le> gd_learning_rate
         (snd (AdaptiveGradientDescent_update
                 (gradient_updates (AdaptiveGradientDescent 0.01 0.9 1.1 0.95)
                    [([], [(''performance'', PNum 0.5)])])
                 [] [(''performance'', PNum 0.8)]))"
proof -
  let ?g = "gradient_updates (AdaptiveGradientDescent 0.01 0.9 1.1 0.95)
              [([], [(''performance'', PNum 0.5)])]"
  have h: "items (gd_performance_history ?g) = [PNum 0.5]"
    by (simp add: AdaptiveGradientDescent_update_def AdaptiveGradientDescent_def
          deque_append_def deque_new_def dict_get_def Let_def)
  have gt: "py_gt (dict_get [(''performance'', PNum 0.8)] ''performance'' (PNum 0))
              (last (items (gd_performance_history ?g))) = Inr True"
    unfolding h by (simp add: dict_get_def py_gt_def)
  show ?thesis
    using gradient_learning_rate_bounded
            [where adaptive_factor = "1.1" and decay_factor = "0.95"
               and learning_rate = "0.01" and momentum = "0.9"
               and calls = "[([], [(''performance'', PNum 0.5)])]"
               and current_state = "[]" and feedback = "[(''performance'', PNum 0.8)]",
             OF _ _ _ _ refl refl]
      h gt
    by simp
qed

subsection \<open>The Bayesian optimizer: the best score\<close>

lemma score_less_irrefl: "\<not> score_less s s"
  by (cases s) simp_all

lemma score_less_trans: "score_less a b \<Longrightarrow> score_less b c \<Longrightarrow> score_less a c"
  by (cases a; cases b; cases c) simp_all

lemma score_le_refl: "score_le s s"
  by (simp add: score_le_def)

lemma score_le_trans: "score_le a b \<Longrightarrow> score_le b c \<Longrightarrow> score_le a c"
  unfolding score_le_def using score_less_trans by blast

lemma bayesian_update_best:
  fixes b current_state feedback
  defines "b' \<equiv> snd (BayesianOptimizer_update b current_state feedback)"
  shows "(bo_best_score b' = bo_best_score b \<and> bo_best_params b' = bo_best_params b) \<or>
         (\<exists>x. num_of (dict_get feedback ''performance'' (PNum 0)) = Some x \<and>
              score_less (bo_best_score b) (Fin x) \<and> bo_best_score b' = Fin x)"
  unfolding b'_def BayesianOptimizer_update_def
  by (simp add: Let_def split: sum.split option.split)

lemma bayesian_update_le:
  "score_le (bo_best_score b)
     (bo_best_score (snd (BayesianOptimizer_update b current_state feedback)))"
  using bayesian_update_best [of b current_state feedback]
  by (auto simp: score_le_def)

lemma bayesian_updates_le:
  "score_le (bo_best_score b) (bo_best_score (bayesian_updates b calls))"
proof (induction calls arbitrary: b)
  case Nil
  show ?case by (simp add: score_le_refl)
next
  case (Cons c calls)
  obtain current_state feedback where c: "c = (current_state, feedback)"
    by (cases c)
  show ?case
    unfolding c using bayesian_update_le Cons.IH score_le_trans by (simp, blast)
qed

text \<open>
  Claim C6. An \<^verbatim>\<open>update\<close> call of the Bayesian optimizer never lowers the best
  score, and neither does any sequence of such calls. The best score or the best
  parameters change only in a call whose performance is a number strictly greater than
  the best score before the call; a performance equal to the best score changes neither.
\<close>

theorem best_score_monotone:
  assumes "b' = snd (BayesianOptimizer_update b current_state feedback)"
  shows "score_le (bo_best_score b) (bo_best_score b') \<and>
         score_le (bo_best_score b) (bo_best_score (bayesian_updates b calls)) \<and>
         (bo_best_score b' \<noteq> bo_best_score b \<or> bo_best_params b' \<noteq> bo_best_params b \<longrightarrow>
            (\<exists>x. num_of (dict_get feedback ''performance'' (PNum 0)) = Some x \<and>
                 score_less (bo_best_score b) (Fin x))) \<and>
         (num_of (dict_get feedback ''performance'' (PNum 0)) = Some y \<and>
          bo_best_score b = Fin y \<longrightarrow>
            bo_best_score b' = bo_best_score b \<and> bo_best_params b' = bo_best_params b)"
  using bayesian_update_best [of b current_state feedback, folded assms]
    bayesian_update_le [of b current_state feedback, folded assms]
    bayesian_updates_le [of b calls] score_less_irrefl
  by auto

theorem best_score_monotone_witness:
  "bo_best_score
     (snd (BayesianOptimizer_update (BayesianOptimizer [(''learning_rate'', (0.001, 0.1))])
             [(''parameters'', PDict [(''learning_rate'', PNum 0.05)])]
             [(''performance'', PNum 0.5)]))
     \<noteq> bo_best_score (BayesianOptimizer [(''learning_rate'', (0.001, 0.1))]) \<and>
   num_of (dict_get [(''performance'', PNum 0.5)] ''performance'' (PNum 0)) = Some 0.5 \<and>
   score_less (bo_best_score (BayesianOptimizer [(''learning_rate'', (0.001, 0.1))])) (Fin 0.5) \<and>
   score_le (bo_best_score (BayesianOptimizer [(''learning_rate'', (0.001, 0.1))]))
     (bo_best_score
        (snd (BayesianOptimizer_update (BayesianOptimizer [(''learning_rate'', (0.001, 0.1))])
                [(''parameters'', PDict [(''learning_rate'', PNum 0.05)])]
                [(''performance'', PNum 0.5)]))) \<and>
   bo_best_score
     (snd (BayesianOptimizer_update (BayesianOptimizer [(''learning_rate'', (0.001, 0.1))])
             [(''parameters'', PDict [(''learning_rate'', PNum 0.05)])]
             [(''performance'', PNum 0.5)])) = Fin 0.5 \<and>
   bo_best_score
     (snd (BayesianOptimizer_update
             (snd (BayesianOptimizer_update
                     (BayesianOptimizer [(''learning_rate'', (0.001, 0.1))])
                     [(''parameters'', PDict [(''learning_rate'', PNum 0.05)])]
                     [(''performance'', PNum 0.5)]))
             [(''parameters'', PDict [(''learning_rate'', PNum 0.07)])]
             [(''performance'', PNum 0.5)])) = Fin 0.5 \<and>
   bo_best_params
     (snd (BayesianOptimizer_update
             (snd (BayesianOptimizer_update
                     (BayesianOptimizer [(''learning_rate'', (0.001, 0.1))])
                     [(''parameters'', PDict [(''learning_rate'', PNum 0.05)])]
                     [(''performance'', PNum 0.5)]))
             [(''parameters'', PDict [(''learning_rate'', PNum 0.07)])]
             [(''performance'', PNum 0.5)])) = Some [(''learning_rate'', PNum 0.05)]"
proof -
  let ?b0 = "BayesianOptimizer [(''learning_rate'', (0.001, 0.1))]"
  let ?b1 = "snd (BayesianOptimizer_update ?b0
                    [(''parameters'', PDict [(''learning_rate'', PNum 0.05)])]
                    [(''performance'', PNum 0.5)])"
  have b1: "bo_best_score ?b1 = Fin 0.5"
    "bo_best_params ?b1 = Some [(''learning_rate'', PNum 0.05)]"
    by (simp_all add: BayesianOptimizer_update_def BayesianOptimizer_def dict_get_def Let_def)
  have b0: "bo_best_score ?b0 = NegInf"
    by (simp add: BayesianOptimizer_def)
  have p: "num_of (dict_get [(''performance'', PNum 0.5)] ''performance'' (PNum 0)) = Some 0.5"
    by (simp add: dict_get_def)
  note first = best_score_monotone
    [where b = ?b0 and current_state = "[(''parameters'', PDict [(''learning_rate'', PNum 0.05)])]"
       and feedback = "[(''performance'', PNum 0.5)]" and calls = "[]", OF refl]
  note second = best_score_monotone
    [where b = ?b1 and current_state = "[(''parameters'', PDict [(''learning_rate'', PNum 0.07)])]"
       and feedback = "[(''performance'', PNum 0.5)]" and calls = "[]" and y = "0.5", OF refl]
  show ?thesis
    using first second b0 b1 p by simp
qed

subsection \<open>The Bayesian optimizer: the next parameters\<close>

lemma np_uniform_bounds:
  assumes "lo \<le> hi" "0 \<le> u" "u \<le> 1"
  shows "lo \<le> np_uniform lo hi u \<and> np_uniform lo hi u \<le> hi"
proof -
  have "0 \<le> (hi - lo) * u" "(hi - lo) * u \<le> (hi - lo) * 1"
    using assms by (simp_all add: mult_left_le)
  then show ?thesis
    by (simp add: np_uniform_def)
qed

lemma np_clip_bounds:
  assumes "lo \<le> hi"
  shows "lo \<le> np_clip x lo hi \<and> np_clip x lo hi \<le> hi"
  using assms by (simp add: np_clip_def)

text \<open>The value that a dictionary with distinct keys holds for each of its keys.\<close>

lemma random_sample_loop_map:
  assumes "distinct (map fst rest)"
  shows "map_of (random_sample_loop u i rest params) k =
           (case map_of rest k of
              None \<Rightarrow> map_of params k
            | Some (lo, hi) \<Rightarrow>
                Some (PNum (np_uniform lo hi (u (i + length (takeWhile (\<lambda>p. fst p \<noteq> k) rest))))))"
  using assms
proof (induction rest arbitrary: i params)
  case Nil
  show ?case by simp
next
  case (Cons p rest)
  obtain name lo hi where p: "p = (name, (lo, hi))"
    by (cases p) auto
  have notin: "map_of rest name = None"
    using Cons.prems by (simp add: p map_of_eq_None_iff)
  show ?case
    using Cons.prems notin
    by (simp add: p Cons.IH update_conv' split: option.split)
qed

lemma random_sample_loop_keys:
  assumes "distinct (map fst params)"
  shows "distinct (map fst (random_sample_loop u i rest params)) \<and>
         set (map fst (random_sample_loop u i rest params)) = set (map fst params) \<union> set (map fst rest)"
  using assms
proof (induction rest arbitrary: i params)
  case Nil
  then show ?case by simp
next
  case (Cons p rest)
  obtain name lo hi where p: "p = (name, (lo, hi))"
    by (cases p) auto
  have "distinct (map fst (AList.update name (PNum (np_uniform lo hi (u i))) params))"
    using Cons.prems by (rule distinct_update)
  from Cons.IH [OF this] show ?case
    by (auto simp: p update_keys)
qed


text \<open>
  The uniform sample, written out: one entry for each declared parameter, in the order
  of the declarations, whose value is the \<open>i\<close>-th uniform draw scaled into the bounds of
  the \<open>i\<close>-th parameter.
\<close>

lemma update_fresh:
  assumes "k \<notin> set (map fst al)"
  shows "AList.update k v al = al @ [(k, v)]"
  using assms by (induction al) auto

lemma random_sample_loop_explicit:
  assumes "distinct (map fst rest)" "set (map fst rest) \<inter> set (map fst params) = {}"
  shows "random_sample_loop u i rest params =
           params @ map (\<lambda>(k, (name, lo, hi)). (name, PNum (np_uniform lo hi (u k))))
                      (zip [i ..< i + length rest] rest)"
  using assms
proof (induction rest arbitrary: i params)
  case Nil
  show ?case by simp
next
  case (Cons p rest)
  obtain name lo hi where p: "p = (name, (lo, hi))"
    by (cases p) auto
  let ?v = "PNum (np_uniform lo hi (u i))"
  have fresh: "name \<notin> set (map fst params)"
    using Cons.prems(2) by (auto simp: p)
  then have upd: "AList.update name ?v params = params @ [(name, ?v)]"
    by (rule update_fresh)
  have d: "distinct (map fst rest)"
    and disj: "set (map fst rest) \<inter> set (map fst (params @ [(name, ?v)])) = {}"
    using Cons.prems by (auto simp: p)
  have "[i ..< i + length (p # rest)] = i # [Suc i ..< Suc i + length rest]"
    using upt_conv_Cons [of i "i + Suc (length rest)"] by simp
  then show ?case
    using Cons.IH [OF d disj, of "Suc i"] by (simp add: p upd)
qed

lemma random_sample_explicit:
  assumes "distinct (map fst (bo_parameter_space b))"
  shows "random_sample u b =
           map (\<lambda>(k, (name, lo, hi)). (name, PNum (np_uniform lo hi (u k))))
             (zip [0 ..< length (bo_parameter_space b)] (bo_parameter_space b))"
  using random_sample_loop_explicit [OF assms, of "[]" u 0] by (simp add: random_sample_def)

lemma within_boundsI:
  assumes "\<And>k v. (k, v) \<in> set params \<Longrightarrow>
             \<exists>lo hi x. map_of space k = Some (lo, hi) \<and> v = PNum x \<and> lo \<le> x \<and> x \<le> hi"
  shows "within_bounds space params"
  unfolding within_bounds_def list_all_iff
proof
  fix p assume p: "p \<in> set params"
  obtain k v where kv: "p = (k, v)" by (cases p)
  from assms [of k v] p kv obtain lo hi x
    where "map_of space k = Some (lo, hi)" "v = PNum x" "lo \<le> x" "x \<le> hi"
    by auto
  then show "case p of (param_name, v) \<Rightarrow>
               (case (map_of space param_name, v) of
                  (Some (min_val, max_val), PNum x) \<Rightarrow> min_val \<le> x \<and> x \<le> max_val
                | _ \<Rightarrow> False)"
    by (simp add: kv)
qed

lemma within_boundsD:
  assumes "within_bounds space params" "(k, v) \<in> set params"
  shows "\<exists>lo hi x. map_of space k = Some (lo, hi) \<and> v = PNum x \<and> lo \<le> x \<and> x \<le> hi"
proof -
  have c: "case (map_of space k, v) of
             (Some (min_val, max_val), PNum x) \<Rightarrow> min_val \<le> x \<and> x \<le> max_val
           | _ \<Rightarrow> False"
    using assms by (auto simp: within_bounds_def list_all_iff)
  then obtain lh where m: "map_of space k = Some lh"
    by (cases "map_of space k") auto
  obtain lo hi where lh: "lh = (lo, hi)" by (cases lh)
  show ?thesis
    using c by (cases v) (simp_all add: m lh)
qed

lemma random_sample_sound:
  assumes keys: "distinct (map fst (bo_parameter_space b))"
    and bounds: "list_all (\<lambda>(name, lo, hi). lo \<le> hi) (bo_parameter_space b)"
    and draws: "\<And>i. 0 \<le> u i \<and> u i < 1"
  shows "within_bounds (bo_parameter_space b) (random_sample u b)"
    and "distinct (map fst (random_sample u b))"
    and "set (map fst (random_sample u b)) = set (map fst (bo_parameter_space b))"
proof -
  let ?space = "bo_parameter_space b"
  let ?rs = "random_sample u b"
  show d: "distinct (map fst ?rs)"
    and "set (map fst ?rs) = set (map fst ?space)"
    using random_sample_loop_keys [of "[]" u 0 ?space] by (simp_all add: random_sample_def)
  show "within_bounds ?space ?rs"
  proof (rule within_boundsI)
    fix k v assume "(k, v) \<in> set ?rs"
    then have m: "map_of ?rs k = Some v"
      using d by simp
    note rl = random_sample_loop_map [OF keys, of u 0 "[]" k, folded random_sample_def]
    obtain lo hi where sp: "map_of ?space k = Some (lo, hi)"
      using m rl by (cases "map_of ?space k") auto
    then have "(k, (lo, hi)) \<in> set ?space"
      by (rule map_of_SomeD)
    then have "lo \<le> hi"
      using bounds by (auto simp: list_all_iff)
    moreover have "\<exists>j. v = PNum (np_uniform lo hi (u j))"
      using m rl sp by auto
    then obtain j where "v = PNum (np_uniform lo hi (u j))" ..
    ultimately show "\<exists>lo hi x. map_of ?space k = Some (lo, hi) \<and> v = PNum x \<and> lo \<le> x \<and> x \<le> hi"
      using sp np_uniform_bounds [of lo hi "u j"] draws [of j] by auto
  qed
qed

lemma ucb_loop_sound:
  assumes "\<And>name. name \<in> set names \<Longrightarrow>
             \<exists>lo hi. map_of space name = Some (lo, hi) \<and> lo \<le> hi"
    and "\<And>name. name \<in> set names \<Longrightarrow>
            \<exists>v r. map_of bp name = Some v \<and> py_float (\<lambda>x. x) v = Inr r"
  shows "\<exists>ps. ucb_loop z i space names bp = Inr ps \<and>
              map fst ps = map fst bp \<and>
              (\<forall>k \<in> set names. \<exists>lo hi x. map_of space k = Some (lo, hi) \<and>
                   map_of ps k = Some (PNum x) \<and> lo \<le> x \<and> x \<le> hi) \<and>
              (\<forall>k. k \<notin> set names \<longrightarrow> map_of ps k = map_of bp k)"
  using assms
proof (induction names arbitrary: i bp)
  case Nil
  show ?case by simp
next
  case (Cons name names)
  obtain lo hi where sp: "map_of space name = Some (lo, hi)" and le: "lo \<le> hi"
    using Cons.prems(1) [of name] by auto
  obtain v r where v: "map_of bp name = Some v" and r: "py_float (\<lambda>x. x) v = Inr r"
    using Cons.prems(2) [of name] by auto
  let ?x = "np_clip (r + (0 + (hi - lo) * 0.1 * z i)) lo hi"
  let ?bp = "AList.update name (PNum ?x) bp"
  have scale: "\<not> (hi - lo) * 0.1 < 0"
    using le by simp
  have step: "ucb_loop z i space (name # names) bp = ucb_loop z (Suc i) space names ?bp"
    using scale by (simp add: sp v r Let_def and_then_def np_normal_def py_add_float_def)
  have present: "name \<in> set (map fst bp)"
    using v by (metis map_of_eq_None_iff option.distinct(1) set_map)
  have keys: "map fst ?bp = map fst bp"
    using present by (simp add: update_keys)
  have numeric: "\<exists>v r. map_of ?bp k = Some v \<and> py_float (\<lambda>x. x) v = Inr r"
    if "k \<in> set names" for k
    using Cons.prems(2) [of k] that by (auto simp: update_conv')
  from Cons.IH [of ?bp "Suc i"] Cons.prems(1) numeric
  obtain ps where ps: "ucb_loop z (Suc i) space names ?bp = Inr ps"
    and pk: "map fst ps = map fst ?bp"
    and inb: "\<forall>k \<in> set names. \<exists>lo hi x. map_of space k = Some (lo, hi) \<and>
                 map_of ps k = Some (PNum x) \<and> lo \<le> x \<and> x \<le> hi"
    and out: "\<forall>k. k \<notin> set names \<longrightarrow> map_of ps k = map_of ?bp k"
    by auto
  have "\<exists>lo hi x. map_of space name = Some (lo, hi) \<and>
                  map_of ps name = Some (PNum x) \<and> lo \<le> x \<and> x \<le> hi"
  proof (cases "name \<in> set names")
    case True
    then show ?thesis using inb by blast
  next
    case False
    then have "map_of ps name = Some (PNum ?x)"
      using out by (simp add: update_conv')
    then show ?thesis
      using sp np_clip_bounds [OF le] by blast
  qed
  moreover have "\<forall>k. k \<notin> set (name # names) \<longrightarrow> map_of ps k = map_of bp k"
    using out by (simp add: update_conv')
  ultimately show ?case
    unfolding step using ps pk keys inb by simp
qed

text \<open>
  The same loop without any assumption on the best parameters: whenever it returns, it
  has clipped the value of every name into the bounds declared for it.
\<close>

lemma ucb_loop_returned:
  assumes "ucb_loop z i space names bp = Inr ps"
  shows "map fst ps = map fst bp \<and>
         (\<forall>k \<in> set names. \<exists>lo hi x. map_of space k = Some (lo, hi) \<and>
              map_of ps k = Some (PNum x) \<and> lo \<le> x \<and> x \<le> hi) \<and>
         (\<forall>k. k \<notin> set names \<longrightarrow> map_of ps k = map_of bp k)"
  using assms
proof (induction names arbitrary: i bp)
  case Nil
  then show ?case by simp
next
  case (Cons name names)
  from Cons.prems obtain lo hi v r
    where sp: "map_of space name = Some (lo, hi)"
      and v: "map_of bp name = Some v"
      and scale: "\<not> (hi - lo) * 0.1 < 0"
      and r: "py_float (\<lambda>x. x) v = Inr r"
    by (auto simp: Let_def and_then_def np_normal_def py_add_float_def
        split: option.splits sum.splits if_splits)
  let ?x = "np_clip (r + (0 + (hi - lo) * 0.1 * z i)) lo hi"
  let ?bp = "AList.update name (PNum ?x) bp"
  have le: "lo \<le> hi"
    using scale by simp
  have step: "ucb_loop z i space (name # names) bp = ucb_loop z (Suc i) space names ?bp"
    using scale by (simp add: sp v r Let_def and_then_def np_normal_def py_add_float_def)
  have present: "name \<in> set (map fst bp)"
    using v by (metis map_of_eq_None_iff option.distinct(1) set_map)
  have keys: "map fst ?bp = map fst bp"
    using present by (simp add: update_keys)
  from Cons.prems have run: "ucb_loop z (Suc i) space names ?bp = Inr ps"
    unfolding step .
  note ih = Cons.IH [OF run]
  have "\<exists>lo hi x. map_of space name = Some (lo, hi) \<and>
                  map_of ps name = Some (PNum x) \<and> lo \<le> x \<and> x \<le> hi"
  proof (cases "name \<in> set names")
    case True
    then show ?thesis using ih by blast
  next
    case False
    then have "map_of ps name = Some (PNum ?x)"
      using ih by (simp add: update_conv')
    then show ?thesis
      using sp np_clip_bounds [OF le] by blast
  qed
  moreover have "\<forall>k. k \<notin> set (name # names) \<longrightarrow> map_of ps k = map_of bp k"
    using ih by (simp add: update_conv')
  ultimately show ?case
    using ih keys by simp
qed

text \<open>
  What claim C7 states, for best parameters that are values of this embedding. Take a
  Bayesian optimizer whose parameter space declares each name once with a minimum that
  is not above the maximum, any uniform draws from \<open>[0, 1)\<close> and any normal draws.
  With fewer than 3 observations \<^verbatim>\<open>get_next_parameters\<close> returns the uniform sample:
  one entry for each declared parameter, in the order of the declarations, with the
  value \<open>min + (max - min) \<times> u\<^sub>i\<close>. With 3 observations or more it is the perturbation
  of the best parameters. In both cases each value returned is a float within the
  declared bounds of its parameter, and the names returned are the declared ones on the
  first path and those of the perturbed dictionary on the second. The call returns when
  the best parameters, if set, have declared names and values that are floats, booleans
  or integers within the range of the floats; a name that is not declared raises
  \<^verbatim>\<open>KeyError\<close>, a value that is not a number \<^verbatim>\<open>TypeError\<close> and an integer beyond the
  floats \<^verbatim>\<open>OverflowError\<close>.

  The embedding has no NaN. In the source a best parameter that is NaN is still NaN
  after the addition of the noise and after \<^verbatim>\<open>np.clip\<close>, which lets a NaN through, and
  is returned as it is: a value within no bounds, which the statement below does not
  cover.
\<close>

lemma next_parameters_within_bounds:
  assumes space_keys: "distinct (map fst (bo_parameter_space b))"
    and bounds: "list_all (\<lambda>(name, min_val, max_val). min_val \<le> max_val) (bo_parameter_space b)"
    and draws: "\<forall>i. 0 \<le> u i \<and> u i < 1"
    and best_keys: "case bo_best_params b of None \<Rightarrow> True | Some bp \<Rightarrow> distinct (map fst bp)"
  shows "BayesianOptimizer_get_next_parameters u z b =
           (if length (bo_observations b) < 3
            then Inr (map (\<lambda>(i, (name, min_val, max_val)).
                             (name, PNum (min_val + (max_val - min_val) * u i)))
                        (zip [0 ..< length (bo_parameter_space b)] (bo_parameter_space b)))
            else ucb_acquisition u z b)"
    and "case BayesianOptimizer_get_next_parameters u z b of
           Inl e \<Rightarrow> True
         | Inr params \<Rightarrow>
             within_bounds (bo_parameter_space b) params \<and>
             map fst params =
               (if length (bo_observations b) < 3 then map fst (bo_parameter_space b)
                else map fst (case bo_best_params b of
                                None \<Rightarrow> random_sample u b
                              | Some bp \<Rightarrow> if bp \<noteq> [] then bp else random_sample u b))"
    and "(case bo_best_params b of
            None \<Rightarrow> True
          | Some bp \<Rightarrow>
              list_all (\<lambda>(name, v). name \<in> set (map fst (bo_parameter_space b)) \<and>
                                     (\<exists>r. py_float (\<lambda>x. x) v = Inr r)) bp)
         \<Longrightarrow> \<exists>params. BayesianOptimizer_get_next_parameters u z b = Inr params"
proof -
  let ?space = "bo_parameter_space b"
  have bounds': "list_all (\<lambda>(name, lo, hi). lo \<le> hi) ?space"
    using bounds by simp
  have draws': "0 \<le> u i \<and> u i < 1" for i
    using draws by simp
  note rs = random_sample_sound [OF space_keys bounds' draws']
  note ex = random_sample_explicit [OF space_keys, of u]
  define bp where "bp = (case bo_best_params b of
                           None \<Rightarrow> random_sample u b
                         | Some bp \<Rightarrow> if bp \<noteq> [] then bp else random_sample u b)"
  have acq: "ucb_acquisition u z b = ucb_loop z 0 ?space (map fst bp) bp"
    by (simp add: ucb_acquisition_def bp_def Let_def)
  have d: "distinct (map fst bp)"
    using best_keys rs(2) unfolding bp_def by (auto split: option.splits)
  have cold: "within_bounds ?space (random_sample u b)"
    by (rule rs(1))
  have cold_keys: "map fst (random_sample u b) = map fst ?space"
    unfolding ex by (rule nth_equalityI) (auto simp: split_beta)
  have warm: "within_bounds ?space ps \<and> map fst ps = map fst bp"
    if run: "ucb_acquisition u z b = Inr ps" for ps
  proof
    note ret = ucb_loop_returned [OF run [unfolded acq]]
    show "map fst ps = map fst bp"
      using ret by simp
    show "within_bounds ?space ps"
    proof (rule within_boundsI)
      fix k v assume kv: "(k, v) \<in> set ps"
      then have "k \<in> set (map fst bp)"
        using ret by (metis fst_conv image_eqI set_map)
      moreover have "map_of ps k = Some v"
        using kv d ret by simp
      ultimately show "\<exists>lo hi x. map_of ?space k = Some (lo, hi) \<and> v = PNum x \<and>
                         lo \<le> x \<and> x \<le> hi"
        using ret by fastforce
    qed
  qed
  show "BayesianOptimizer_get_next_parameters u z b =
           (if length (bo_observations b) < 3
            then Inr (map (\<lambda>(i, (name, min_val, max_val)).
                             (name, PNum (min_val + (max_val - min_val) * u i)))
                        (zip [0 ..< length ?space] ?space))
            else ucb_acquisition u z b)"
    using ex by (simp add: BayesianOptimizer_get_next_parameters_def np_uniform_def)
  show "case BayesianOptimizer_get_next_parameters u z b of
           Inl e \<Rightarrow> True
         | Inr params \<Rightarrow>
             within_bounds ?space params \<and>
             map fst params =
               (if length (bo_observations b) < 3 then map fst ?space
                else map fst (case bo_best_params b of
                                None \<Rightarrow> random_sample u b
                              | Some bp \<Rightarrow> if bp \<noteq> [] then bp else random_sample u b))"
    using cold cold_keys warm
    by (auto simp: BayesianOptimizer_get_next_parameters_def bp_def split: sum.splits)
  show "\<exists>params. BayesianOptimizer_get_next_parameters u z b = Inr params"
    if typed: "case bo_best_params b of
                 None \<Rightarrow> True
               | Some bp \<Rightarrow>
                   list_all (\<lambda>(name, v). name \<in> set (map fst ?space) \<and>
                                          (\<exists>r. py_float (\<lambda>x. x) v = Inr r)) bp"
  proof -
    have declared: "\<exists>lo hi. map_of ?space name = Some (lo, hi) \<and> lo \<le> hi"
      if "name \<in> set (map fst ?space)" for name
    proof -
      have "map_of ?space name \<noteq> None"
        using that by (simp add: map_of_eq_None_iff)
      then obtain lh where m: "map_of ?space name = Some lh"
        by blast
      obtain lo hi where lh: "lh = (lo, hi)" by (cases lh)
      have "(name, (lo, hi)) \<in> set ?space"
        using m lh by (auto dest: map_of_SomeD)
      then have "lo \<le> hi"
        using bounds by (auto simp: list_all_iff)
      then show ?thesis using m lh by simp
    qed
    have rs_numeric: "\<exists>r. py_float (\<lambda>x. x) v = Inr r"
      if "(k, v) \<in> set (random_sample u b)" for k v
      using within_boundsD [OF cold that] by auto
    have sub: "set (map fst bp) \<subseteq> set (map fst ?space)"
      and numeric: "\<And>k v. (k, v) \<in> set bp \<Longrightarrow> \<exists>r. py_float (\<lambda>x. x) v = Inr r"
      using typed rs(3) rs_numeric unfolding bp_def
      by (auto simp: list_all_iff split: option.splits if_splits)
    have p1: "\<exists>lo hi. map_of ?space name = Some (lo, hi) \<and> lo \<le> hi"
      if "name \<in> set (map fst bp)" for name
      using that sub declared by blast
    have p2: "\<exists>v r. map_of bp name = Some v \<and> py_float (\<lambda>x. x) v = Inr r"
      if "name \<in> set (map fst bp)" for name
    proof -
      have "map_of bp name \<noteq> None"
        using that by (simp add: map_of_eq_None_iff)
      then obtain v where v: "map_of bp name = Some v"
        by blast
      then have "(name, v) \<in> set bp"
        by (rule map_of_SomeD)
      then show ?thesis
        using numeric v by auto
    qed
    from ucb_loop_sound [of "map fst bp" ?space bp z 0, OF p1 p2]
    have "\<exists>ps. ucb_acquisition u z b = Inr ps"
      unfolding acq by blast
    then show ?thesis
      by (simp add: BayesianOptimizer_get_next_parameters_def)
  qed
qed

text \<open>
  Runs of both paths on the parameter space of the engine: the uniform sample after
  two observations, and after a third one the perturbation of the best parameters,
  with a noise large enough for the clamp to act. An integer beyond the floats as the
  best value makes the perturbation raise.
\<close>

lemma next_parameters_runs:
  "BayesianOptimizer_get_next_parameters (\<lambda>i. 1/2) (\<lambda>i. 10)
      (bayesian_updates
         (BayesianOptimizer
            [(''learning_rate'', (0.001, 0.1)), (''confidence_threshold'', (0.5, 0.95))])
         [([(''parameters'', PDict [(''learning_rate'', PNum 0.05)])],
           [(''performance'', PNum 0.5)]),
          ([(''parameters'', PDict [(''learning_rate'', PNum 0.05)])],
           [(''performance'', PNum 0.6)])])
     = Inr [(''learning_rate'', PNum 0.0505), (''confidence_threshold'', PNum 0.725)]"
  "BayesianOptimizer_get_next_parameters (\<lambda>i. 1/2) (\<lambda>i. 10)
      (bayesian_updates
         (BayesianOptimizer
            [(''learning_rate'', (0.001, 0.1)), (''confidence_threshold'', (0.5, 0.95))])
         [([(''parameters'', PDict [(''learning_rate'', PNum 0.05)])],
           [(''performance'', PNum 0.5)]),
          ([(''parameters'', PDict [(''learning_rate'', PNum 0.05)])],
           [(''performance'', PNum 0.6)]),
          ([(''parameters'', PDict [(''learning_rate'', PNum 0.05)])],
           [(''performance'', PNum 0.4)])])
     = Inr [(''learning_rate'', PNum 0.1)]"
  "BayesianOptimizer_get_next_parameters (\<lambda>i. 1/2) (\<lambda>i. 10)
      (bayesian_updates
         (BayesianOptimizer
            [(''learning_rate'', (0.001, 0.1)), (''confidence_threshold'', (0.5, 0.95))])
         [([(''parameters'', PDict [(''learning_rate'', PInt (2 ^ 1024))])],
           [(''performance'', PNum 0.5)]),
          ([(''parameters'', PDict [(''learning_rate'', PInt (2 ^ 1024))])],
           [(''performance'', PNum 0.6)]),
          ([(''parameters'', PDict [(''learning_rate'', PInt (2 ^ 1024))])],
           [(''performance'', PNum 0.4)])])
     = Inl OverflowError"
  by (simp_all add: BayesianOptimizer_update_def BayesianOptimizer_def dict_get_def Let_def
        BayesianOptimizer_get_next_parameters_def random_sample_def np_uniform_def
        ucb_acquisition_def and_then_def np_normal_def py_add_float_def np_clip_def
        float_overflow_def)

subsection \<open>The learning engine\<close>

lemma is_failure_failure_result: "is_failure (failure_result env e)"
  by (simp add: is_failure_def failure_result_def)

lemma not_is_failure_success_result:
  "\<not> is_failure (success_result c performance_improvement policy_strength x)"
  by (simp add: is_failure_def success_result_def)

lemma update_performance_metrics_keeps:
  assumes "update_performance_metrics c x = (r, c')"
  shows "learning_iteration c' = learning_iteration c"
    and "learning_experiences c' = learning_experiences c"
    and "rl_agent c' = rl_agent c"
  using assms by (auto simp: update_performance_metrics_def split: sum.splits)

lemma update_performance_metrics_appends:
  assumes "update_performance_metrics c x = (Inr u, c')"
  shows "\<exists>performance. py_get (exp_outcome x) ''performance'' (PNum 0) = Inr performance \<and>
           metrics_of (performance_metrics c') ''overall'' =
             metrics_of (performance_metrics c) ''overall'' @
               [PDict [(''value'', performance), (''timestamp'', exp_timestamp x)]]"
  using assms by (auto simp: update_performance_metrics_def metrics_of_def split: sum.splits)

lemma apply_learning_updates_keeps:
  assumes "apply_learning_updates c x = (r, c')"
  shows "learning_iteration c' = learning_iteration c"
    and "learning_experiences c' = learning_experiences c"
    and "performance_metrics c' = performance_metrics c"
    and "rl_agent c' = rl_agent c"
  using assms
  by (auto simp: apply_learning_updates_def and_then_def Let_def
      split: sum.splits prod.splits if_splits)

lemma update_rl_agent_keeps:
  "learning_iteration (update_rl_agent env c x) = learning_iteration c"
  "learning_experiences (update_rl_agent env c x) = learning_experiences c"
  "performance_metrics (update_rl_agent env c x) = performance_metrics c"
  by (simp_all add: update_rl_agent_def split: sum.splits)


text \<open>The paths of learn_from_experience, one lemma for each.\<close>

lemma learn_construction_raises:
  assumes "new_experience env experience_data = Inl e"
  shows "learn_from_experience env c experience_data = (failure_result env e, c)"
  using assms by (simp add: learn_from_experience_def)

lemma learn_metrics_raise:
  assumes "new_experience env experience_data = Inr x"
    and "update_performance_metrics
           (c\<lparr>learning_experiences := deque_append (learning_experiences c) x\<rparr>) x = (Inl e, c2)"
  shows "learn_from_experience env c experience_data = (failure_result env e, c2)"
  using assms by (simp add: learn_from_experience_def Let_def)

lemma learn_updates_raise:
  assumes "new_experience env experience_data = Inr x"
    and "update_performance_metrics
           (c\<lparr>learning_experiences := deque_append (learning_experiences c) x\<rparr>) x = (Inr u, c2)"
    and "apply_learning_updates c2 x = (Inl e, c3)"
  shows "learn_from_experience env c experience_data = (failure_result env e, c3)"
  using assms by (simp add: learn_from_experience_def Let_def)

lemma learn_strength_raises:
  assumes "new_experience env experience_data = Inr x"
    and "update_performance_metrics
           (c\<lparr>learning_experiences := deque_append (learning_experiences c) x\<rparr>) x = (Inr u, c2)"
    and "apply_learning_updates c2 x = (Inr (update_result, improvement), c3)"
    and "get_policy_strength (rl_agent (update_rl_agent env c3 x)) = Inl e"
  shows "learn_from_experience env c experience_data =
           (failure_result env e, update_rl_agent env c3 x)"
  using assms by (simp add: learn_from_experience_def Let_def)

lemma learn_succeeds:
  assumes "new_experience env experience_data = Inr x"
    and "update_performance_metrics
           (c\<lparr>learning_experiences := deque_append (learning_experiences c) x\<rparr>) x = (Inr u, c2)"
    and "apply_learning_updates c2 x = (Inr (update_result, improvement), c3)"
    and "get_policy_strength (rl_agent (update_rl_agent env c3 x)) = Inr strength"
  shows "learn_from_experience env c experience_data =
           (success_result (update_rl_agent env c3 x) improvement strength x,
            (update_rl_agent env c3 x)
              \<lparr>learning_iteration := learning_iteration (update_rl_agent env c3 x) + 1\<rparr>)"
  using assms by (simp add: learn_from_experience_def Let_def)

lemma learn_from_experience_cases:
  assumes "learn_from_experience env c experience_data = (result, c')"
  shows "(\<exists>e. result = failure_result env e \<and> learning_iteration c' = learning_iteration c) \<or>
         (\<exists>c4 improvement strength x.
            result = success_result c4 improvement strength x \<and>
            learning_iteration c4 = learning_iteration c \<and>
            c' = c4\<lparr>learning_iteration := learning_iteration c4 + 1\<rparr>)"
proof (cases "new_experience env experience_data")
  case (Inl e)
  from learn_construction_raises [OF this, of c] assms show ?thesis by auto
next
  case (Inr x)
  let ?c1 = "c\<lparr>learning_experiences := deque_append (learning_experiences c) x\<rparr>"
  obtain r2 c2 where m: "update_performance_metrics ?c1 x = (r2, c2)"
    by (cases "update_performance_metrics ?c1 x")
  have i2: "learning_iteration c2 = learning_iteration c"
    using update_performance_metrics_keeps(1) [OF m] by simp
  show ?thesis
  proof (cases r2)
    case (Inl e)
    from learn_metrics_raise [OF Inr m [unfolded Inl]] assms i2 show ?thesis by auto
  next
    case r2: (Inr u)
    obtain r3 c3 where a: "apply_learning_updates c2 x = (r3, c3)"
      by (cases "apply_learning_updates c2 x")
    have i3: "learning_iteration c3 = learning_iteration c"
      using apply_learning_updates_keeps(1) [OF a] i2 by simp
    show ?thesis
    proof (cases r3)
      case (Inl e)
      from learn_updates_raise [OF Inr m [unfolded r2] a [unfolded Inl]] assms i3
      show ?thesis by auto
    next
      case r3: (Inr ui)
      obtain update_result improvement where ui: "ui = (update_result, improvement)"
        by (cases ui)
      let ?c4 = "update_rl_agent env c3 x"
      have i4: "learning_iteration ?c4 = learning_iteration c"
        using i3 by (simp add: update_rl_agent_keeps)
      show ?thesis
      proof (cases "get_policy_strength (rl_agent ?c4)")
        case (Inl e)
        from learn_strength_raises [OF Inr m [unfolded r2] a [unfolded r3 ui] Inl] assms i4
        show ?thesis by auto
      next
        case strength: (Inr strength)
        from learn_succeeds [OF Inr m [unfolded r2] a [unfolded r3 ui] strength] assms
        have "result = success_result ?c4 improvement strength x"
          and "c' = ?c4\<lparr>learning_iteration := learning_iteration ?c4 + 1\<rparr>"
          by simp_all
        with i4 show ?thesis by blast
      qed
    qed
  qed
qed

lemma get_policy_strength_returns:
  assumes "concat (rl_q_table a) \<noteq> []"
  shows "\<exists>strength. get_policy_strength a = Inr strength"
  using np_max_Max [OF assms]
  by (simp add: get_policy_strength_def and_then_def Let_def)

lemma update_rl_agent_raises:
  assumes "rl_agent_step env c x = Inl e"
  shows "update_rl_agent env c x = c"
  using assms by (simp add: update_rl_agent_def)

lemma np_index_less:
  assumes "np_index n i = Inr k"
  shows "k < n"
  using assms by (auto simp: np_index_def split: if_splits)

lemma update_q_value_nonempty:
  assumes "update_q_value env a state action reward next_state done = Inr a'"
  shows "concat (rl_q_table a') \<noteq> []"
proof -
  from assms obtain s j v where s: "s < length (rl_q_table a)"
    and j: "j < length (rl_q_table a ! s)"
    and q: "rl_q_table a' = (rl_q_table a)[s := (rl_q_table a ! s)[j := v]]"
    by (auto simp: update_q_value_def and_then_def split: sum.splits dest!: np_index_less)
  have "(rl_q_table a ! s)[j := v] \<in> set (rl_q_table a')"
    unfolding q using s by (simp add: set_update_memI)
  moreover have "(rl_q_table a ! s)[j := v] \<noteq> []"
    using j by auto
  ultimately show ?thesis
    by (metis concat_eq_Nil_conv)
qed

lemma update_rl_agent_nonempty:
  assumes "concat (rl_q_table (rl_agent c)) \<noteq> []"
  shows "concat (rl_q_table (rl_agent (update_rl_agent env c x))) \<noteq> []"
proof (cases "rl_agent_step env c x")
  case (Inl e)
  then show ?thesis using assms by (simp add: update_rl_agent_def)
next
  case (Inr a')
  then have "concat (rl_q_table a') \<noteq> []"
    by (auto simp: rl_agent_step_def and_then_def split: sum.splits
        dest: update_q_value_nonempty)
  then show ?thesis using Inr by (simp add: update_rl_agent_def)
qed

lemma new_core_table: "concat (rl_q_table (rl_agent (EnhancedAutonomousLearningCore cfg))) \<noteq> []"
  by (simp add: EnhancedAutonomousLearningCore_def ReinforcementLearningAgent_def Let_def)

text \<open>
  Claim C2. Whatever \<^verbatim>\<open>learn_from_experience\<close> is called with: when the result it
  returns is a failure, \<^verbatim>\<open>learning_iteration\<close> is what it was before the call, and
  when the result is a success, \<^verbatim>\<open>learning_iteration\<close> is greater by exactly 1.
  When the experience is constructed, the metrics and the learning updates go through
  and only the update of the RL agent raises, the result is a success and the counter
  is incremented (the Q-table has at least one cell, as the engine's always has).
\<close>

theorem learning_iteration_counts:
  assumes "learn_from_experience env c experience_data = (result, c')"
  shows "(is_failure result \<longrightarrow> learning_iteration c' = learning_iteration c) \<and>
         (\<not> is_failure result \<longrightarrow> learning_iteration c' = learning_iteration c + 1) \<and>
         (new_experience env experience_data = Inr x \<and>
          update_performance_metrics
            (c\<lparr>learning_experiences := deque_append (learning_experiences c) x\<rparr>) x
            = (Inr u, c2) \<and>
          apply_learning_updates c2 x = (Inr ui, c3) \<and>
          rl_agent_step env c3 x = Inl e \<and>
          concat (rl_q_table (rl_agent c3)) \<noteq> []
            \<longrightarrow> \<not> is_failure result \<and> learning_iteration c' = learning_iteration c + 1)"
proof -
  from learn_from_experience_cases [OF assms]
  have counts: "(is_failure result \<longrightarrow> learning_iteration c' = learning_iteration c) \<and>
                (\<not> is_failure result \<longrightarrow> learning_iteration c' = learning_iteration c + 1)"
    using is_failure_failure_result not_is_failure_success_result by auto
  have "\<not> is_failure result"
    if n: "new_experience env experience_data = Inr x"
      and m: "update_performance_metrics
                (c\<lparr>learning_experiences := deque_append (learning_experiences c) x\<rparr>) x
                = (Inr u, c2)"
      and a: "apply_learning_updates c2 x = (Inr ui, c3)"
      and r: "rl_agent_step env c3 x = Inl e"
      and q: "concat (rl_q_table (rl_agent c3)) \<noteq> []"
  proof -
    obtain update_result improvement where ui: "ui = (update_result, improvement)"
      by (cases ui)
    have same: "update_rl_agent env c3 x = c3"
      using r by (rule update_rl_agent_raises)
    obtain strength where "get_policy_strength (rl_agent (update_rl_agent env c3 x)) = Inr strength"
      using get_policy_strength_returns [OF q] same by auto
    from learn_succeeds [OF n m a [unfolded ui] this] assms
    have "result = success_result (update_rl_agent env c3 x) improvement strength x"
      by simp
    then show ?thesis
      by (simp add: not_is_failure_success_result)
  qed
  with counts show ?thesis by blast
qed

theorem learning_iteration_counts_witness:
  "is_failure (fst (learn_from_experience sample_env (EnhancedAutonomousLearningCore None)
                      (PStr ''abc''))) \<and>
   learning_iteration (snd (learn_from_experience sample_env
                              (EnhancedAutonomousLearningCore None) (PStr ''abc''))) = 0 \<and>
   py_hash sample_env (PDict [(''name'', PStr ''buy'')]) = Inl TypeError \<and>
   \<not> is_failure (fst (learn_from_experience sample_env (EnhancedAutonomousLearningCore None)
                        unhashable_action_experience)) \<and>
   learning_iteration (snd (learn_from_experience sample_env
                              (EnhancedAutonomousLearningCore None)
                              unhashable_action_experience)) = 1"
proof -
  let ?c = "EnhancedAutonomousLearningCore None"
  let ?x = "\<lparr>exp_timestamp = PStr (now_isoformat sample_env), exp_context = PDict [],
             exp_action_taken = PDict [(''name'', PStr ''buy'')],
             exp_outcome = PDict [(''performance'', PNum 0.8)],
             exp_reward = PNum 1, exp_confidence = PNum 0.5, exp_metadata = []\<rparr>"
  let ?c1 = "?c\<lparr>learning_experiences := deque_append (learning_experiences ?c) ?x\<rparr>"
  let ?c2 = "snd (update_performance_metrics ?c1 ?x)"
  let ?c3 = "snd (apply_learning_updates ?c2 ?x)"
  have i0: "learning_iteration ?c = 0"
    by (simp add: EnhancedAutonomousLearningCore_def Let_def)
  have bad: "is_failure (fst (learn_from_experience sample_env ?c (PStr ''abc'')))"
    by (simp add: learn_from_experience_def new_experience_def and_then_def
          is_failure_failure_result)
  have n: "new_experience sample_env unhashable_action_experience = Inr ?x"
    by (simp add: unhashable_action_experience_def new_experience_def and_then_def dict_get_def)
  have "fst (update_performance_metrics ?c1 ?x) = Inr ()"
    by (simp add: update_performance_metrics_def dict_get_def)
  then have m: "update_performance_metrics ?c1 ?x = (Inr (), ?c2)"
    by (simp add: prod_eq_iff)
  have "fst (apply_learning_updates ?c2 ?x) = Inr (GradientResult 0.01 [] 0.9, 0.8)"
    by (simp add: update_performance_metrics_def dict_get_def apply_learning_updates_def
      and_then_def EnhancedAutonomousLearningCore_def AdaptiveGradientDescent_update_def
      AdaptiveGradientDescent_def deque_append_def deque_new_def Let_def py_sub_def)
  then have a: "apply_learning_updates ?c2 ?x = (Inr (GradientResult 0.01 [] 0.9, 0.8), ?c3)"
    by (simp add: prod_eq_iff)
  have h: "py_hash sample_env (PDict [(''name'', PStr ''buy'')]) = Inl TypeError"
    by simp
  then have r: "rl_agent_step sample_env ?c3 ?x = Inl TypeError"
    by (simp add: rl_agent_step_def and_then_def)
  have "rl_agent ?c3 = rl_agent ?c"
    using apply_learning_updates_keeps(4) [OF a] update_performance_metrics_keeps(3) [OF m]
    by simp
  then have q: "concat (rl_q_table (rl_agent ?c3)) \<noteq> []"
    using new_core_table [of None] by simp
  note failing = learning_iteration_counts
      [where env = sample_env and c = ?c and experience_data = "PStr ''abc''",
        OF surjective_pairing]
  note rl_raises = learning_iteration_counts
      [where env = sample_env and c = ?c and experience_data = unhashable_action_experience
         and x = ?x and u = "()" and ?c2.0 = ?c2 and ?c3.0 = ?c3
         and ui = "(GradientResult 0.01 [] 0.9, 0.8)" and e = TypeError,
        OF surjective_pairing]
  show ?thesis
    using failing bad rl_raises n m a r q h i0 by simp
qed

text \<open>
  Claim C10. The \<^verbatim>\<open>learning_iteration\<close> entry of a success result is the value of
  the engine's counter before the call, and the counter after the call is greater by 1;
  so the first successful call of a new engine reports 0 and leaves the counter at 1.
\<close>

theorem reported_iteration_is_previous_count:
  assumes "learn_from_experience env c experience_data = (result, c')"
    and "\<not> is_failure result"
  shows "map_of result ''learning_iteration'' = Some (PInt (learning_iteration c)) \<and>
         learning_iteration c' = learning_iteration c + 1 \<and>
         (c = EnhancedAutonomousLearningCore cfg \<longrightarrow>
            map_of result ''learning_iteration'' = Some (PInt 0) \<and> learning_iteration c' = 1)"
proof -
  from learn_from_experience_cases [OF assms(1)] assms(2)
  obtain c4 improvement strength x
    where "result = success_result c4 improvement strength x"
      and "learning_iteration c4 = learning_iteration c"
      and "c' = c4\<lparr>learning_iteration := learning_iteration c4 + 1\<rparr>"
    using is_failure_failure_result by blast
  then have "map_of result ''learning_iteration'' = Some (PInt (learning_iteration c)) \<and>
             learning_iteration c' = learning_iteration c + 1"
    by (simp add: success_result_def)
  then show ?thesis
    by (auto simp: EnhancedAutonomousLearningCore_def Let_def)
qed

theorem reported_iteration_is_previous_count_witness:
  "\<not> is_failure (fst (learn_from_experience sample_env (EnhancedAutonomousLearningCore None)
                        buy_experience)) \<and>
   map_of (fst (learn_from_experience sample_env (EnhancedAutonomousLearningCore None)
                  buy_experience)) ''learning_iteration'' = Some (PInt 0) \<and>
   learning_iteration (snd (learn_from_experience sample_env
                              (EnhancedAutonomousLearningCore None) buy_experience)) = 1"
proof -
  let ?c = "EnhancedAutonomousLearningCore None"
  let ?x = "\<lparr>exp_timestamp = PStr (now_isoformat sample_env), exp_context = PDict [],
             exp_action_taken = PStr ''buy'',
             exp_outcome = PDict [(''performance'', PNum 0.8)],
             exp_reward = PNum 1, exp_confidence = PNum 0.5, exp_metadata = []\<rparr>"
  let ?c1 = "?c\<lparr>learning_experiences := deque_append (learning_experiences ?c) ?x\<rparr>"
  let ?c2 = "snd (update_performance_metrics ?c1 ?x)"
  let ?c3 = "snd (apply_learning_updates ?c2 ?x)"
  have n: "new_experience sample_env buy_experience = Inr ?x"
    by (simp add: buy_experience_def new_experience_def and_then_def dict_get_def)
  have "fst (update_performance_metrics ?c1 ?x) = Inr ()"
    by (simp add: update_performance_metrics_def dict_get_def)
  then have m: "update_performance_metrics ?c1 ?x = (Inr (), ?c2)"
    by (simp add: prod_eq_iff)
  have "fst (apply_learning_updates ?c2 ?x) = Inr (GradientResult 0.01 [] 0.9, 0.8)"
    by (simp add: update_performance_metrics_def dict_get_def apply_learning_updates_def
      and_then_def EnhancedAutonomousLearningCore_def AdaptiveGradientDescent_update_def
      AdaptiveGradientDescent_def deque_append_def deque_new_def Let_def py_sub_def)
  then have a: "apply_learning_updates ?c2 ?x = (Inr (GradientResult 0.01 [] 0.9, 0.8), ?c3)"
    by (simp add: prod_eq_iff)
  have "rl_agent ?c3 = rl_agent ?c"
    using apply_learning_updates_keeps(4) [OF a] update_performance_metrics_keeps(3) [OF m]
    by simp
  then have "concat (rl_q_table (rl_agent ?c3)) \<noteq> []"
    using new_core_table [of None] by simp
  then have "concat (rl_q_table (rl_agent (update_rl_agent sample_env ?c3 ?x))) \<noteq> []"
    by (rule update_rl_agent_nonempty)
  then obtain strength
    where "get_policy_strength (rl_agent (update_rl_agent sample_env ?c3 ?x)) = Inr strength"
    using get_policy_strength_returns by blast
  from learn_succeeds [OF n m a this]
  have ok: "\<not> is_failure (fst (learn_from_experience sample_env ?c buy_experience))"
    by (simp add: not_is_failure_success_result)
  show ?thesis
    using reported_iteration_is_previous_count
            [where env = sample_env and c = ?c and experience_data = buy_experience
               and cfg = None, OF surjective_pairing ok] ok
    by simp
qed

text \<open>
  Claim C3. When the construction of the experience raises, \<^verbatim>\<open>learn_from_experience\<close>
  returns the failure result of that exception and the engine is as it was. When the
  experience is constructed and recorded in the metrics and \<^verbatim>\<open>_apply_learning_updates\<close>
  raises, it returns the failure result of that exception, \<^verbatim>\<open>learning_iteration\<close> is
  as it was, and the experience appended to the bounded history and the entry appended
  to \<^verbatim>\<open>performance_metrics['overall']\<close> remain. A failure result holds the text of
  the exception under \<^verbatim>\<open>'error'\<close> and \<^verbatim>\<open>False\<close> under \<^verbatim>\<open>'success'\<close>.
\<close>

theorem failure_keeps_partial_updates:
  "(new_experience env experience_data = Inl e \<longrightarrow>
      learn_from_experience env c experience_data = (failure_result env e, c)) \<and>
   (new_experience env experience_data = Inr x \<and>
    update_performance_metrics
      (c\<lparr>learning_experiences := deque_append (learning_experiences c) x\<rparr>) x = (Inr u, c2) \<and>
    apply_learning_updates c2 x = (Inl e, c3) \<longrightarrow>
      learn_from_experience env c experience_data = (failure_result env e, c3) \<and>
      learning_iteration c3 = learning_iteration c \<and>
      learning_experiences c3 = deque_append (learning_experiences c) x \<and>
      (\<exists>performance.
         py_get (exp_outcome x) ''performance'' (PNum 0) = Inr performance \<and>
         metrics_of (performance_metrics c3) ''overall'' =
           metrics_of (performance_metrics c) ''overall'' @
             [PDict [(''value'', performance), (''timestamp'', exp_timestamp x)]])) \<and>
   map_of (failure_result env e) ''error'' = Some (PStr (exception_str env e)) \<and>
   map_of (failure_result env e) ''success'' = Some (PBool False)"
proof -
  have "learn_from_experience env c experience_data = (failure_result env e, c3) \<and>
        learning_iteration c3 = learning_iteration c \<and>
        learning_experiences c3 = deque_append (learning_experiences c) x \<and>
        (\<exists>performance.
           py_get (exp_outcome x) ''performance'' (PNum 0) = Inr performance \<and>
           metrics_of (performance_metrics c3) ''overall'' =
             metrics_of (performance_metrics c) ''overall'' @
               [PDict [(''value'', performance), (''timestamp'', exp_timestamp x)]])"
    if n: "new_experience env experience_data = Inr x"
      and m: "update_performance_metrics
                (c\<lparr>learning_experiences := deque_append (learning_experiences c) x\<rparr>) x
                = (Inr u, c2)"
      and a: "apply_learning_updates c2 x = (Inl e, c3)"
  proof -
    note k2 = update_performance_metrics_keeps [OF m]
    note k3 = apply_learning_updates_keeps [OF a]
    from update_performance_metrics_appends [OF m] obtain performance
      where "py_get (exp_outcome x) ''performance'' (PNum 0) = Inr performance"
        and "metrics_of (performance_metrics c2) ''overall'' =
               metrics_of (performance_metrics c) ''overall'' @
                 [PDict [(''value'', performance), (''timestamp'', exp_timestamp x)]]"
      by auto
    then show ?thesis
      using learn_updates_raise [OF n m a] k2 k3 by auto
  qed
  then show ?thesis
    using learn_construction_raises [of env experience_data e c]
    by (auto simp: failure_result_def)
qed

theorem failure_keeps_partial_updates_witness:
  "new_experience sample_env (PStr ''abc'') = Inl AttributeError \<and>
   learn_from_experience sample_env (EnhancedAutonomousLearningCore None) (PStr ''abc'')
     = (failure_result sample_env AttributeError, EnhancedAutonomousLearningCore None) \<and>
   fst (learn_from_experience sample_env (EnhancedAutonomousLearningCore None)
          bad_gradients_experience) = failure_result sample_env AttributeError \<and>
   learning_iteration (snd (learn_from_experience sample_env
                              (EnhancedAutonomousLearningCore None)
                              bad_gradients_experience)) = 0 \<and>
   length (items (learning_experiences
                    (snd (learn_from_experience sample_env
                            (EnhancedAutonomousLearningCore None)
                            bad_gradients_experience)))) = 1 \<and>
   metrics_of (performance_metrics
                 (snd (learn_from_experience sample_env
                         (EnhancedAutonomousLearningCore None)
                         bad_gradients_experience))) ''overall''
     = [PDict [(''value'', PNum 0.8), (''timestamp'', PStr (now_isoformat sample_env))]]"
proof -
  let ?c = "EnhancedAutonomousLearningCore None"
  let ?x = "\<lparr>exp_timestamp = PStr (now_isoformat sample_env), exp_context = PDict [],
             exp_action_taken = PStr ''buy'',
             exp_outcome = PDict [(''performance'', PNum 0.8), (''gradients'', PStr ''abc'')],
             exp_reward = PNum 1, exp_confidence = PNum 0.5, exp_metadata = []\<rparr>"
  let ?c1 = "?c\<lparr>learning_experiences := deque_append (learning_experiences ?c) ?x\<rparr>"
  let ?c2 = "snd (update_performance_metrics ?c1 ?x)"
  let ?c3 = "snd (apply_learning_updates ?c2 ?x)"
  have c0: "learning_iteration ?c = 0" "items (learning_experiences ?c) = []"
    "maxlen (learning_experiences ?c) = 10000"
    "metrics_of (performance_metrics ?c) ''overall'' = []"
    by (simp_all add: EnhancedAutonomousLearningCore_def Let_def deque_new_def metrics_of_def)
  have n0: "new_experience sample_env (PStr ''abc'') = Inl AttributeError"
    by (simp add: new_experience_def and_then_def)
  have n: "new_experience sample_env bad_gradients_experience = Inr ?x"
    by (simp add: bad_gradients_experience_def new_experience_def and_then_def dict_get_def)
  have "fst (update_performance_metrics ?c1 ?x) = Inr ()"
    by (simp add: update_performance_metrics_def dict_get_def)
  then have m: "update_performance_metrics ?c1 ?x = (Inr (), ?c2)"
    by (simp add: prod_eq_iff)
  have "fst (apply_learning_updates ?c2 ?x) = Inl AttributeError"
    by (simp add: update_performance_metrics_def dict_get_def apply_learning_updates_def
      and_then_def EnhancedAutonomousLearningCore_def AdaptiveGradientDescent_update_def
      AdaptiveGradientDescent_def deque_append_def deque_new_def Let_def)
  then have a: "apply_learning_updates ?c2 ?x = (Inl AttributeError, ?c3)"
    by (simp add: prod_eq_iff)
  have p: "py_get (exp_outcome ?x) ''performance'' (PNum 0) = Inr (PNum 0.8)"
    by (simp add: dict_get_def)
  note construction = failure_keeps_partial_updates
      [where env = sample_env and c = ?c and experience_data = "PStr ''abc''"
         and e = AttributeError]
  note dispatch = failure_keeps_partial_updates
      [where env = sample_env and c = ?c and experience_data = bad_gradients_experience
         and x = ?x and u = "()" and ?c2.0 = ?c2 and ?c3.0 = ?c3 and e = AttributeError]
  have "learn_from_experience sample_env ?c bad_gradients_experience
          = (failure_result sample_env AttributeError, ?c3) \<and>
        learning_iteration ?c3 = learning_iteration ?c \<and>
        learning_experiences ?c3 = deque_append (learning_experiences ?c) ?x \<and>
        metrics_of (performance_metrics ?c3) ''overall'' =
          metrics_of (performance_metrics ?c) ''overall'' @
            [PDict [(''value'', PNum 0.8), (''timestamp'', exp_timestamp ?x)]]"
    using dispatch n m a p by auto
  moreover have "length (items (deque_append (learning_experiences ?c) ?x)) = 1"
    using c0(2,3) by (simp add: deque_append_def Let_def)
  ultimately show ?thesis
    using construction n0 c0 by simp
qed

subsection \<open>The bounded sequences of the optimizer and the engine\<close>

text \<open>
  The performance window of the gradient optimizer after a sequence of \<^verbatim>\<open>update\<close>
  calls, and the experience history of the engine after one
  \<^verbatim>\<open>learn_from_experience\<close>: each call appends one element, also when it raises
  later on.
\<close>

lemma gradient_updates_window:
  "gd_performance_history (gradient_updates g calls) =
     deque_append_all (gd_performance_history g)
       (map (\<lambda>(current_state, feedback). dict_get feedback ''performance'' (PNum 0)) calls)"
proof (induction calls arbitrary: g)
  case Nil
  show ?case by simp
next
  case (Cons c calls)
  obtain current_state feedback where c: "c = (current_state, feedback)"
    by (cases c)
  show ?case
    by (simp add: c Cons.IH gradient_update_fields(5))
qed

lemma learn_from_experience_history:
  "learning_experiences (snd (learn_from_experience env c experience_data)) =
     (case new_experience env experience_data of
        Inl e \<Rightarrow> learning_experiences c
      | Inr x \<Rightarrow> deque_append (learning_experiences c) x)"
proof (cases "new_experience env experience_data")
  case (Inl e)
  then show ?thesis
    by (simp add: learn_construction_raises)
next
  case (Inr x)
  let ?c1 = "c\<lparr>learning_experiences := deque_append (learning_experiences c) x\<rparr>"
  obtain r2 c2 where m: "update_performance_metrics ?c1 x = (r2, c2)"
    by (cases "update_performance_metrics ?c1 x")
  have h2: "learning_experiences c2 = deque_append (learning_experiences c) x"
    using update_performance_metrics_keeps(2) [OF m] by simp
  show ?thesis
  proof (cases r2)
    case (Inl e)
    from learn_metrics_raise [OF Inr m [unfolded Inl]] h2 show ?thesis
      by (simp add: Inr)
  next
    case r2: (Inr u)
    obtain r3 c3 where a: "apply_learning_updates c2 x = (r3, c3)"
      by (cases "apply_learning_updates c2 x")
    have h3: "learning_experiences c3 = deque_append (learning_experiences c) x"
      using apply_learning_updates_keeps(2) [OF a] h2 by simp
    show ?thesis
    proof (cases r3)
      case (Inl e)
      from learn_updates_raise [OF Inr m [unfolded r2] a [unfolded Inl]] h3 show ?thesis
        by (simp add: Inr)
    next
      case r3: (Inr ui)
      obtain update_result improvement where ui: "ui = (update_result, improvement)"
        by (cases ui)
      let ?c4 = "update_rl_agent env c3 x"
      have h4: "learning_experiences ?c4 = deque_append (learning_experiences c) x"
        using h3 by (simp add: update_rl_agent_keeps)
      show ?thesis
      proof (cases "get_policy_strength (rl_agent ?c4)")
        case (Inl e)
        from learn_strength_raises [OF Inr m [unfolded r2] a [unfolded r3 ui] Inl] h4
        show ?thesis by (simp add: Inr)
      next
        case strength: (Inr strength)
        from learn_succeeds [OF Inr m [unfolded r2] a [unfolded r3 ui] strength] h4
        show ?thesis by (simp add: Inr)
      qed
    qed
  qed
qed

text \<open>
  Claim C8, as amended. For a bounded sequence of capacity \<open>C\<close> that starts empty:
  after \<open>C + k\<close> insertions the first \<open>k\<close> insertions, the oldest, are gone and what
  remains is the \<open>C\<close> most recent insertions in their original order; exactly \<open>C\<close>
  elements remain; and after any number \<open>n\<close> of these insertions the sequence holds no
  more than \<open>C\<close> elements. The bounded sequences of the source are of this kind: the
  engine's experience history starts empty with capacity 10000 and gets each constructed
  experience appended, the gradient optimizer's performance window starts empty with
  capacity 50 and gets the performance of each \<^verbatim>\<open>update\<close> appended, and the
  agent's experience buffer starts empty with capacity 10000.
\<close>

theorem bounded_sequence_keeps_latest:
  assumes "length xs = C + k"
  shows "items (deque_append_all (deque_new C) xs) = drop k xs \<and>
         length (items (deque_append_all (deque_new C) xs)) = C \<and>
         length (items (deque_append_all (deque_new C) (take n xs))) \<le> C \<and>
         learning_experiences (EnhancedAutonomousLearningCore cfg) = deque_new 10000 \<and>
         learning_experiences (snd (learn_from_experience env c experience_data)) =
           (case new_experience env experience_data of
              Inl e \<Rightarrow> learning_experiences c
            | Inr x \<Rightarrow> deque_append (learning_experiences c) x) \<and>
         gd_performance_history
             (gradient_updates
                (AdaptiveGradientDescent learning_rate momentum adaptive_factor decay_factor)
                calls) =
           deque_append_all (deque_new 50)
             (map (\<lambda>(current_state, feedback). dict_get feedback ''performance'' (PNum 0))
                calls) \<and>
         rl_experience_buffer
             (ReinforcementLearningAgent state_space_size action_space_size rate
                discount_factor epsilon epsilon_decay) = deque_new 10000"
proof -
  have generic: "items (deque_append_all (deque_new C) xs) = drop k xs \<and>
        length (items (deque_append_all (deque_new C) xs)) = C \<and>
        length (items (deque_append_all (deque_new C) (take n xs))) \<le> C"
    using assms by (simp add: deque_new_append_all)
  have history: "learning_experiences (EnhancedAutonomousLearningCore cfg) = deque_new 10000"
    by (simp add: EnhancedAutonomousLearningCore_def Let_def)
  have "gd_performance_history
          (AdaptiveGradientDescent learning_rate momentum adaptive_factor decay_factor)
        = deque_new 50"
    by (simp add: AdaptiveGradientDescent_def)
  then have window: "gd_performance_history
             (gradient_updates
                (AdaptiveGradientDescent learning_rate momentum adaptive_factor decay_factor)
                calls) =
           deque_append_all (deque_new 50)
             (map (\<lambda>(current_state, feedback). dict_get feedback ''performance'' (PNum 0))
                calls)"
    by (simp only: gradient_updates_window)
  have buffer: "rl_experience_buffer
             (ReinforcementLearningAgent state_space_size action_space_size rate
                discount_factor epsilon epsilon_decay) = deque_new 10000"
    by (simp add: ReinforcementLearningAgent_def)
  show ?thesis
    using generic history window buffer
      learn_from_experience_history [of env c experience_data]
    by blast
qed

theorem bounded_sequence_keeps_latest_witness:
  "length [1, 2, 3, 4, 5 :: nat] = 3 + 2 \<and>
   items (deque_append_all (deque_new 3) [1, 2, 3, 4, 5 :: nat]) = [3, 4, 5] \<and>
   length (items (deque_append_all (deque_new 3) [1, 2, 3, 4, 5 :: nat])) = 3 \<and>
   length (items (deque_append_all (deque_new 3) (take 4 [1, 2, 3, 4, 5 :: nat]))) \<le> 3"
  using bounded_sequence_keeps_latest [of "[1, 2, 3, 4, 5 :: nat]" 3 2 4] by simp

text \<open>
  Claim C8 as it is written says that the remaining elements are the \<open>k\<close> most recent
  insertions. With the capacity 50 of the performance window and \<open>k = 1\<close>: after 51
  insertions the window is not the single most recent insertion.
\<close>

theorem k_most_recent_counterexample:
  "length [1 ..< 52] = 50 + 1 \<and>
   items (deque_append_all (deque_new 50) [1 ..< 52])
     \<noteq> drop (length [1 ..< 52] - 1) [1 ..< 52]"
proof -
  have "length (items (deque_append_all (deque_new 50) [1 ..< 52])) = 50"
    by (simp add: deque_new_append_all)
  moreover have "length (drop (length [1 ..< 52] - 1) [1 ..< 52]) = 1"
    by simp
  ultimately show ?thesis by auto
qed

end
